theory Spec2Isabelle
  imports Main "HOL-Library.AList"
begin

section \<open>AutoCrew command-line driver (autocrew.py)\<close>

text \<open>
  A shallow embedding of \<^verbatim>\<open>autocrew.py\<close>: the argument type \<^verbatim>\<open>positive_int\<close>, the
  remote version check, logging initialisation, the self-upgrade and the dispatch of
  \<^verbatim>\<open>main\<close>. Python exceptions are values of the type \<open>error\<close>; the files below the
  working directory, the handlers of the root logger and the console are an explicit
  state that every operation takes and returns. What the libraries do (how \<^verbatim>\<open>int\<close>
  reads a string, how \<^verbatim>\<open>packaging\<close> reads and compares versions, how
  \<^verbatim>\<open>configparser\<close> reads a text and interpolates a value) is a parameter of the model:
  the statements hold for every such library.
\<close>

subsection \<open>Exceptions\<close>

text \<open>Each constructor carries the text that \<^verbatim>\<open>str(e)\<close> gives.\<close>

datatype error =
    ValueError string
  | EOFError
  | ArgumentTypeError string
  | InvalidVersion string
  | RequestException string
  | HTTPError string
  | JSONDecodeError string
  | KeyError string
  | FileNotFoundError string
  | IsADirectoryError string
  | NotADirectoryError string
  | FileExistsError string
  | OSError string
  | TypeError string
  | ConfigParserError string

fun error_text :: "error \<Rightarrow> string" where
  "error_text (ValueError s) = s"
| "error_text EOFError = ''EOF when reading a line''"
| "error_text (ArgumentTypeError s) = s"
| "error_text (InvalidVersion s) = s"
| "error_text (RequestException s) = s"
| "error_text (HTTPError s) = s"
| "error_text (JSONDecodeError s) = s"
| "error_text (KeyError s) = s"
| "error_text (FileNotFoundError s) = s"
| "error_text (IsADirectoryError s) = s"
| "error_text (NotADirectoryError s) = s"
| "error_text (FileExistsError s) = s"
| "error_text (OSError s) = s"
| "error_text (TypeError s) = s"
| "error_text (ConfigParserError s) = s"

subsection \<open>The libraries\<close>

text \<open>
  A \<^verbatim>\<open>ConfigParser\<close> object holds the options of the \<^verbatim>\<open>DEFAULT\<close> section and the named
  sections, each an ordered dictionary; option names are stored as \<^verbatim>\<open>optionxform\<close>
  leaves them.
\<close>

record config =
  defaults :: "(string \<times> string) list"
  sections :: "(string \<times> (string \<times> string) list) list"

text \<open>
  The parts of the libraries that the model takes as they are:
  \<^item> \<open>int_of s\<close> is the built-in \<^verbatim>\<open>int(s)\<close>, \<open>None\<close> when it raises \<^verbatim>\<open>ValueError\<close>;
  \<^item> \<open>version_newer a b\<close> is \<^verbatim>\<open>version.parse(a) > version.parse(b)\<close> of
    \<^verbatim>\<open>packaging\<close>, or the exception that one of the two calls of \<^verbatim>\<open>parse\<close> raises;
  \<^item> \<open>read_string\<close> is the reader of \<^verbatim>\<open>configparser\<close>, and \<open>before_get\<close> and
    \<open>before_set\<close> are the two hooks of its interpolation: the value an option is read
    with, given the dictionary it is read from, and the check of a value that is set.
\<close>

record library =
  int_of :: "string \<Rightarrow> int option"
  version_newer :: "string \<Rightarrow> string \<Rightarrow> error + bool"
  read_string :: "string \<Rightarrow> error + config"
  before_get :: "(string \<times> string) list \<Rightarrow> string \<Rightarrow> string \<Rightarrow> error + string"
  before_set :: "string \<Rightarrow> error option"

subsection \<open>\<^verbatim>\<open>positive_int\<close>, the type of \<^verbatim>\<open>-m/--multiple\<close>\<close>

text \<open>
  Standard input is the list of the lines that \<^verbatim>\<open>input()\<close> will return; at its end
  \<^verbatim>\<open>input()\<close> raises \<^verbatim>\<open>EOFError\<close>, which no handler of \<^verbatim>\<open>positive_int\<close> catches. The
  result is paired with the lines printed.
\<close>

fun input_loop :: "library \<Rightarrow> string list \<Rightarrow> (error + int) \<times> string list" where
  "input_loop L [] = (Inl EOFError, [])"
| "input_loop L (l # ls) =
     (case int_of L l of
        Some i \<Rightarrow> (Inr i, [])
      | None \<Rightarrow>
          (case input_loop L ls of
             (r, out) \<Rightarrow> (r, ''Invalid input. Please enter a valid number.'' # out)))"

definition positive_int :: "library \<Rightarrow> string \<Rightarrow> string list \<Rightarrow> (error + int) \<times> string list" where
  "positive_int L val stdin =
     (case int_of L val of
        Some ivalue \<Rightarrow>
          if ivalue \<le> 0
          then (Inl (ArgumentTypeError (val @ '' is an invalid positive int value'')), [])
          else (Inr ivalue, [])
      | None \<Rightarrow>
          (case input_loop L stdin of
             (r, out) \<Rightarrow>
               (r, ''Please specify the total number of alternative scripts to generate: '' # out)))"

subsection \<open>\<^verbatim>\<open>check_latest_version\<close>\<close>

definition AUTOCREW_VERSION :: string where
  "AUTOCREW_VERSION = ''2.1.4''"

text \<open>
  What the request to the releases endpoint gives: \<^verbatim>\<open>requests.get\<close> raises, the status
  is an error (\<^verbatim>\<open>raise_for_status\<close>), the body is no JSON, the JSON object has no
  \<^verbatim>\<open>tag_name\<close>, or the tag.
\<close>

datatype remote =
    RequestFailed string
  | BadStatus string
  | NotJson string
  | MissingTag
  | TagName string

fun latest_tag :: "remote \<Rightarrow> error + string" where
  "latest_tag (RequestFailed s) = Inl (RequestException s)"
| "latest_tag (BadStatus s) = Inl (HTTPError s)"
| "latest_tag (NotJson s) = Inl (JSONDecodeError s)"
| "latest_tag MissingTag = Inl (KeyError ([CHR 0x27] @ ''tag_name'' @ [CHR 0x27]))"
| "latest_tag (TagName t) = Inr t"

text \<open>The body of the \<^verbatim>\<open>try\<close> block, lines 132 to 140.\<close>

definition version_notice :: "library \<Rightarrow> remote \<Rightarrow> error + string" where
  "version_notice L r =
     (case latest_tag r of
        Inl e \<Rightarrow> Inl e
      | Inr latest_version \<Rightarrow>
          (case version_newer L latest_version AUTOCREW_VERSION of
             Inl e \<Rightarrow> Inl e
           | Inr newer \<Rightarrow>
               if newer
               then Inr (''An updated version of AutoCrew is available: '' @ latest_version)
               else Inr ''You are running the latest version of AutoCrew.''))"

definition check_latest_version :: "library \<Rightarrow> remote \<Rightarrow> string" where
  "check_latest_version L r =
     (case version_notice L r of
        Inr msg \<Rightarrow> msg
      | Inl e \<Rightarrow> ''Error checking for the latest version: '' @ error_text e)"

subsection \<open>Files below the working directory\<close>

text \<open>
  A directory is the list of its entries in the order \<^verbatim>\<open>os.listdir\<close> gives them; a
  name is looked up at its first entry. A path is the list of its components, relative to
  the working directory.
\<close>

datatype node = File string | Dir "(string \<times> node) list"

type_synonym tree = "(string \<times> node) list"

type_synonym path = "string list"

fun lookup :: "tree \<Rightarrow> path \<Rightarrow> node option" where
  "lookup t [] = Some (Dir t)"
| "lookup t (n # p) =
     (case map_of t n of
        None \<Rightarrow> None
      | Some (File c) \<Rightarrow> (if p = [] then Some (File c) else None)
      | Some (Dir d) \<Rightarrow> lookup d p)"

definition exists_path :: "tree \<Rightarrow> path \<Rightarrow> bool" where
  "exists_path t p = (lookup t p \<noteq> None)"

definition isfile :: "tree \<Rightarrow> path \<Rightarrow> bool" where
  "isfile t p = (case lookup t p of Some (File c) \<Rightarrow> True | _ \<Rightarrow> False)"

fun path_text :: "path \<Rightarrow> string" where
  "path_text [] = []"
| "path_text [n] = n"
| "path_text (n # m # p) = n @ ''/'' @ path_text (m # p)"

text \<open>\<^verbatim>\<open>open(path, 'w')\<close>, a write and the close: the file is created or replaced.\<close>

fun write_file :: "tree \<Rightarrow> path \<Rightarrow> string \<Rightarrow> error + tree" where
  "write_file t [] c = Inl (IsADirectoryError [])"
| "write_file t [n] c =
     (case map_of t n of
        Some (Dir d) \<Rightarrow> Inl (IsADirectoryError n)
      | _ \<Rightarrow> Inr (AList.update n (File c) t))"
| "write_file t (n # m # p) c =
     (case map_of t n of
        None \<Rightarrow> Inl (FileNotFoundError n)
      | Some (File x) \<Rightarrow> Inl (NotADirectoryError n)
      | Some (Dir d) \<Rightarrow>
          (case write_file d (m # p) c of
             Inl e \<Rightarrow> Inl e
           | Inr d' \<Rightarrow> Inr (AList.update n (Dir d') t)))"

definition copyfile :: "tree \<Rightarrow> path \<Rightarrow> path \<Rightarrow> error + tree" where
  "copyfile t src dst =
     (case lookup t src of
        None \<Rightarrow> Inl (FileNotFoundError (path_text src))
      | Some (Dir d) \<Rightarrow> Inl (IsADirectoryError (path_text src))
      | Some (File c) \<Rightarrow> write_file t dst c)"

definition makedirs :: "tree \<Rightarrow> string \<Rightarrow> error + tree" where
  "makedirs t n =
     (if map_of t n = None then Inr (t @ [(n, Dir [])]) else Inl (FileExistsError n))"

definition rmtree :: "tree \<Rightarrow> string \<Rightarrow> error + tree" where
  "rmtree t n =
     (case map_of t n of
        None \<Rightarrow> Inl (FileNotFoundError n)
      | Some (File c) \<Rightarrow> Inl (NotADirectoryError n)
      | Some (Dir d) \<Rightarrow> Inr (AList.delete n t))"

definition listdir :: "tree \<Rightarrow> path \<Rightarrow> error + string list" where
  "listdir t p =
     (case lookup t p of
        None \<Rightarrow> Inl (FileNotFoundError (path_text p))
      | Some (File c) \<Rightarrow> Inl (NotADirectoryError (path_text p))
      | Some (Dir d) \<Rightarrow> Inr (map fst d))"

text \<open>
  A path given as a text, as the path of the log backup is (\<^verbatim>\<open>os.path.join\<close> puts a
  slash between the directory and the name): it is cut at the slashes, empty components
  and \<^verbatim>\<open>.\<close> are passed over, and the components are followed from the working
  directory, each but the last to a directory, \<^verbatim>\<open>..\<close> back to the directory above. The
  state holds the files below the working directory only, so the working directory is
  taken as the root of the file system, where \<^verbatim>\<open>..\<close> stays. A name of more than 255
  bytes, a path of 4096 bytes or more and a zero byte in the path are refused, the last
  by Python before the file system is asked.
\<close>

fun split_at :: "char \<Rightarrow> string \<Rightarrow> string list" where
  "split_at d [] = [[]]"
| "split_at d (c # cs) =
     (if c = d then [] # split_at d cs
      else (case split_at d cs of [] \<Rightarrow> [[c]] | p # ps \<Rightarrow> (c # p) # ps))"

definition path_components :: "string \<Rightarrow> path" where
  "path_components s = filter (\<lambda>c. c \<noteq> [] \<and> c \<noteq> ''.'') (split_at CHR ''/'' s)"

fun resolve :: "tree \<Rightarrow> path \<Rightarrow> path \<Rightarrow> error + path" where
  "resolve t acc [] = Inr acc"
| "resolve t acc (c # cs) =
     (if 255 < length c then Inl (OSError ''File name too long'')
      else if c = ''..'' then resolve t (butlast acc) cs
      else if cs = [] then Inr (acc @ [c])
      else (case lookup t (acc @ [c]) of
              None \<Rightarrow> Inl (FileNotFoundError (path_text (acc @ [c])))
            | Some (File x) \<Rightarrow> Inl (NotADirectoryError (path_text (acc @ [c])))
            | Some (Dir d) \<Rightarrow> resolve t (acc @ [c]) cs))"

definition open_write :: "tree \<Rightarrow> string \<Rightarrow> string \<Rightarrow> error + tree" where
  "open_write t name c =
     (if CHR 0x00 \<in> set name then Inl (ValueError ''embedded null byte'')
      else if 4096 \<le> length name then Inl (OSError ''File name too long'')
      else (case resolve t [] (path_components name) of
              Inl e \<Rightarrow> Inl e
            | Inr p \<Rightarrow> write_file t p c))"

definition copyfile_to :: "tree \<Rightarrow> path \<Rightarrow> string \<Rightarrow> error + tree" where
  "copyfile_to t src name =
     (case lookup t src of
        None \<Rightarrow> Inl (FileNotFoundError (path_text src))
      | Some (Dir d) \<Rightarrow> Inl (IsADirectoryError (path_text src))
      | Some (File c) \<Rightarrow> open_write t name c)"

subsection \<open>The process state and the root logger\<close>

text \<open>
  The only file handler the program ever creates is on \<^verbatim>\<open>autocrew.log\<close> in the working
  directory, opened with mode \<^verbatim>\<open>w\<close>: it writes each record at its own position in the
  file, which is where its last record ended, whatever the file holds by then. A
  handler is its kind, its level and, for the file handler, that position. A record is
  written to the file as one line, level name and message (the time stamp and the code
  location of the source's format are left out). The stream handler writes the bare
  message to the console.
\<close>

datatype handler = FileHandler nat nat | StreamHandler nat

record world =
  cwd :: tree
  handlers :: "handler list"
  stdout :: "string list"

definition DEBUG :: nat where "DEBUG = 10"

definition INFO :: nat where "INFO = 20"

definition ERROR :: nat where "ERROR = 40"

definition level_name :: "nat \<Rightarrow> string" where
  "level_name l =
     (if l = 10 then ''DEBUG'' else if l = 20 then ''INFO'' else if l = 30 then ''WARNING''
      else if l = 40 then ''ERROR'' else if l = 50 then ''CRITICAL'' else ''Level'')"

definition log_line :: "nat \<Rightarrow> string \<Rightarrow> string" where
  "log_line l msg = level_name l @ '' - '' @ msg @ [CHR 0x0A]"

definition log_file :: string where
  "log_file = ''autocrew.log''"

text \<open>Writing \<open>s\<close> at the position \<open>p\<close> of a file that holds \<open>c\<close>; a gap is filled with
  zero bytes.\<close>

definition write_at :: "string \<Rightarrow> nat \<Rightarrow> string \<Rightarrow> string" where
  "write_at c p s =
     (if p \<le> length c then take p c @ s @ drop (p + length s) c
      else c @ replicate (p - length c) (CHR 0x00) @ s)"

definition write_log :: "tree \<Rightarrow> nat \<Rightarrow> string \<Rightarrow> tree" where
  "write_log t p s =
     (case map_of t log_file of
        Some (File c) \<Rightarrow> AList.update log_file (File (write_at c p s)) t
      | _ \<Rightarrow> t)"

fun emit :: "nat \<Rightarrow> string \<Rightarrow> handler \<Rightarrow> world \<Rightarrow> handler \<times> world" where
  "emit l msg (FileHandler hl p) w =
     (if hl \<le> l
      then (FileHandler hl (p + length (log_line l msg)),
            w\<lparr>cwd := write_log (cwd w) p (log_line l msg)\<rparr>)
      else (FileHandler hl p, w))"
| "emit l msg (StreamHandler hl) w =
     (if hl \<le> l then (StreamHandler hl, w\<lparr>stdout := stdout w @ [msg]\<rparr>)
      else (StreamHandler hl, w))"

fun emit_all :: "nat \<Rightarrow> string \<Rightarrow> handler list \<Rightarrow> world \<Rightarrow> handler list \<times> world" where
  "emit_all l msg [] w = ([], w)"
| "emit_all l msg (h # hs) w =
     (case emit l msg h w of
        (h', w1) \<Rightarrow> (case emit_all l msg hs w1 of (hs', w2) \<Rightarrow> (h' # hs', w2)))"

definition logging_log :: "nat \<Rightarrow> string \<Rightarrow> world \<Rightarrow> world" where
  "logging_log l msg w =
     (case emit_all l msg (handlers w) w of (hs, w') \<Rightarrow> w'\<lparr>handlers := hs\<rparr>)"

definition print :: "string \<Rightarrow> world \<Rightarrow> world" where
  "print s w = w\<lparr>stdout := stdout w @ [s]\<rparr>"

text \<open>
  A step either raises, and the state it leaves is the state at the raise, or goes on.
\<close>

type_synonym step = "world \<Rightarrow> error option \<times> world"

definition seq :: "step \<Rightarrow> step \<Rightarrow> step" where
  "seq f g w = (case f w of (Some e, w') \<Rightarrow> (Some e, w') | (None, w') \<Rightarrow> g w')"

definition fs_step :: "(tree \<Rightarrow> error + tree) \<Rightarrow> step" where
  "fs_step f w = (case f (cwd w) of Inl e \<Rightarrow> (Some e, w) | Inr t \<Rightarrow> (None, w\<lparr>cwd := t\<rparr>))"

definition info :: "string \<Rightarrow> step" where
  "info msg w = (None, logging_log INFO msg w)"

subsection \<open>\<^verbatim>\<open>configparser.ConfigParser\<close>\<close>

definition empty_config :: config where
  "empty_config = \<lparr>defaults = [], sections = []\<rparr>"

definition DEFAULT :: string where
  "DEFAULT = ''DEFAULT''"

text \<open>\<^verbatim>\<open>config.read(path)\<close>: a file that cannot be opened is passed over.\<close>

definition config_read :: "library \<Rightarrow> tree \<Rightarrow> path \<Rightarrow> error + config" where
  "config_read L t p =
     (case lookup t p of Some (File c) \<Rightarrow> read_string L c | _ \<Rightarrow> Inr empty_config)"

definition config_sections :: "config \<Rightarrow> string list" where
  "config_sections c = map fst (sections c)"

definition has_section :: "config \<Rightarrow> string \<Rightarrow> bool" where
  "has_section c s = (map_of (sections c) s \<noteq> None)"

definition add_section :: "config \<Rightarrow> string \<Rightarrow> error + config" where
  "add_section c s =
     (if s = DEFAULT then Inl (ValueError ''Invalid section name: DEFAULT'')
      else if has_section c s then Inl (ConfigParserError (''Section already exists: '' @ s))
      else Inr (c\<lparr>sections := sections c @ [(s, [])]\<rparr>))"

text \<open>The dictionary a section is read through: a copy of the defaults, updated with
  the section's own options.\<close>

definition effective :: "config \<Rightarrow> (string \<times> string) list \<Rightarrow> (string \<times> string) list" where
  "effective c opts = fold (\<lambda>kv d. AList.update (fst kv) (snd kv) d) opts (defaults c)"

definition section_dict :: "config \<Rightarrow> string \<Rightarrow> (error + (string \<times> string) list)" where
  "section_dict c s =
     (case map_of (sections c) s of
        Some opts \<Rightarrow> Inr (effective c opts)
      | None \<Rightarrow>
          if s = DEFAULT then Inr (defaults c)
          else Inl (ConfigParserError (''No section: '' @ s)))"

fun get_all ::
  "library \<Rightarrow> (string \<times> string) list \<Rightarrow> (string \<times> string) list \<Rightarrow>
   error + (string \<times> string) list" where
  "get_all L d [] = Inr []"
| "get_all L d (kv # kvs) =
     (case before_get L d (fst kv) (snd kv) of
        Inl e \<Rightarrow> Inl e
      | Inr v \<Rightarrow>
          (case get_all L d kvs of Inl e \<Rightarrow> Inl e | Inr r \<Rightarrow> Inr ((fst kv, v) # r)))"

definition config_items :: "library \<Rightarrow> config \<Rightarrow> string \<Rightarrow> error + (string \<times> string) list" where
  "config_items L c s =
     (case section_dict c s of Inl e \<Rightarrow> Inl e | Inr d \<Rightarrow> get_all L d d)"

definition has_option :: "config \<Rightarrow> string \<Rightarrow> string \<Rightarrow> bool" where
  "has_option c s k =
     (if s = [] \<or> s = DEFAULT then map_of (defaults c) k \<noteq> None
      else (case map_of (sections c) s of
              None \<Rightarrow> False
            | Some opts \<Rightarrow> map_of opts k \<noteq> None \<or> map_of (defaults c) k \<noteq> None))"

definition config_get :: "library \<Rightarrow> config \<Rightarrow> string \<Rightarrow> string \<Rightarrow> error + string" where
  "config_get L c s k =
     (case section_dict c s of
        Inl e \<Rightarrow> Inl e
      | Inr d \<Rightarrow>
          (case map_of d k of
             None \<Rightarrow> Inl (ConfigParserError (''No option: '' @ k))
           | Some v \<Rightarrow> before_get L d k v))"

definition config_set :: "library \<Rightarrow> config \<Rightarrow> string \<Rightarrow> string \<Rightarrow> string \<Rightarrow> error + config" where
  "config_set L c s k v =
     (case (if v = [] then None else before_set L v) of
        Some e \<Rightarrow> Inl e
      | None \<Rightarrow>
          if s = [] \<or> s = DEFAULT then Inr (c\<lparr>defaults := AList.update k v (defaults c)\<rparr>)
          else (case map_of (sections c) s of
                  None \<Rightarrow> Inl (ConfigParserError (''No section: '' @ s))
                | Some opts \<Rightarrow>
                    Inr (c\<lparr>sections := AList.update s (AList.update k v opts) (sections c)\<rparr>)))"

text \<open>\<^verbatim>\<open>config.write(file)\<close>: the defaults when there are any, then each section; a line
  break inside a value is followed by a tab.\<close>

fun write_value :: "string \<Rightarrow> string" where
  "write_value [] = []"
| "write_value (c # cs) =
     (if c = CHR 0x0A then CHR 0x0A # CHR 0x09 # write_value cs else c # write_value cs)"

definition write_section :: "string \<Rightarrow> (string \<times> string) list \<Rightarrow> string" where
  "write_section name opts =
     ''['' @ name @ '']'' @ [CHR 0x0A]
     @ concat (map (\<lambda>kv. fst kv @ '' = '' @ write_value (snd kv) @ [CHR 0x0A]) opts)
     @ [CHR 0x0A]"

definition config_write :: "config \<Rightarrow> string" where
  "config_write c =
     (if defaults c = [] then [] else write_section DEFAULT (defaults c))
     @ concat (map (\<lambda>se. write_section (fst se) (snd se)) (sections c))"

subsection \<open>Merging the previous settings into the fetched configuration\<close>

text \<open>The loops of lines 179 to 183: \<open>set_all\<close> is the inner loop over the items of one
  section of the backup, \<open>merge_sections\<close> the outer loop over its sections.\<close>

fun set_all ::
  "library \<Rightarrow> string \<Rightarrow> (string \<times> string) list \<Rightarrow> config \<Rightarrow> error + config" where
  "set_all L s [] c = Inr c"
| "set_all L s (kv # kvs) c =
     (case config_set L c s (fst kv) (snd kv) of
        Inl e \<Rightarrow> Inl e
      | Inr c' \<Rightarrow> set_all L s kvs c')"

fun merge_sections ::
  "library \<Rightarrow> config \<Rightarrow> string list \<Rightarrow> config \<Rightarrow> error + config" where
  "merge_sections L config_backup [] c = Inr c"
| "merge_sections L config_backup (s # ss) c =
     (case (if \<not> has_section c s then add_section c s else Inr c) of
        Inl e \<Rightarrow> Inl e
      | Inr c1 \<Rightarrow>
          (case config_items L config_backup s of
             Inl e \<Rightarrow> Inl e
           | Inr kvs \<Rightarrow>
               (case set_all L s kvs c1 of
                  Inl e \<Rightarrow> Inl e
                | Inr c2 \<Rightarrow> merge_sections L config_backup ss c2)))"

definition merge_config :: "library \<Rightarrow> config \<Rightarrow> config \<Rightarrow> error + config" where
  "merge_config L config config_backup =
     merge_sections L config_backup (config_sections config_backup) config"

subsection \<open>\<^verbatim>\<open>initialize_logging\<close>\<close>

text \<open>\<^verbatim>\<open>str.upper\<close>, on the letters of ASCII.\<close>

definition to_upper :: "char \<Rightarrow> char" where
  "to_upper c = (let n = (of_char c :: nat) in if 97 \<le> n \<and> n \<le> 122 then char_of (n - 32) else c)"

text \<open>
  \<^verbatim>\<open>getattr(logging, name, logging.INFO)\<close> for an upper-case name: the level names give
  their numbers, two further upper-case attributes of the module are no levels (the
  handler's \<^verbatim>\<open>setLevel\<close> raises on them), any other name gives \<^verbatim>\<open>INFO\<close>.
\<close>

definition level_value :: "string \<Rightarrow> error + nat" where
  "level_value n =
     (if n = ''CRITICAL'' \<or> n = ''FATAL'' then Inr 50
      else if n = ''ERROR'' then Inr 40
      else if n = ''WARNING'' \<or> n = ''WARN'' then Inr 30
      else if n = ''INFO'' then Inr 20
      else if n = ''DEBUG'' then Inr 10
      else if n = ''NOTSET'' then Inr 0
      else if n = ''BASIC_FORMAT'' then Inl (ValueError ''Unknown level'')
      else if n = ''_STYLES'' then Inl (TypeError ''Level not an integer or a valid string'')
      else Inr INFO)"

text \<open>Lines 50 to 57: the level the console handler will be given.\<close>

definition console_logging_level :: "library \<Rightarrow> bool \<Rightarrow> config \<Rightarrow> error + (error + nat)" where
  "console_logging_level L verbose config =
     (if \<not> verbose \<and> has_option config ''MISCELLANEOUS'' ''on_screen_logging_level''
      then (case config_get L config ''MISCELLANEOUS'' ''on_screen_logging_level'' of
              Inl e \<Rightarrow> Inl e
            | Inr config_level \<Rightarrow> Inr (level_value (map to_upper config_level)))
      else if verbose then Inr (Inr DEBUG)
      else Inr (Inr INFO))"

definition initialize_logging :: "library \<Rightarrow> bool \<Rightarrow> string option \<Rightarrow> step" where
  "initialize_logging L verbose message w =
     (case config_read L (cwd w) [''config.ini''] of
        Inl e \<Rightarrow> (Some e, w)
      | Inr config \<Rightarrow>
          (case console_logging_level L verbose config of
             Inl e \<Rightarrow> (Some e, w)
           | Inr level \<Rightarrow>
               (let w1 = w\<lparr>handlers := []\<rparr> in
                case write_file (cwd w1) [log_file] [] of
                  Inl e \<Rightarrow> (Some e, w1)
                | Inr t \<Rightarrow>
                    (let w2 = w1\<lparr>cwd := t, handlers := [FileHandler DEBUG 0]\<rparr> in
                     case level of
                       Inl e \<Rightarrow> (Some e, w2)
                     | Inr l \<Rightarrow>
                         (let w3 = w2\<lparr>handlers := handlers w2 @ [StreamHandler l]\<rparr> in
                          case message of
                            None \<Rightarrow> (None, w3)
                          | Some m \<Rightarrow>
                              if m = [] then (None, w3) else (None, logging_log INFO m w3))))))"

subsection \<open>\<^verbatim>\<open>upgrade_autocrew\<close>\<close>

text \<open>
  What \<^verbatim>\<open>git clone\<close> does is an input: the program is not there
  (\<^verbatim>\<open>subprocess.run\<close> raises), the clone fails and leaves no directory behind, the clone
  fails and leaves a directory with what it had fetched, or the clone succeeds and puts
  the tree into the update directory. \<^verbatim>\<open>subprocess.run\<close> is called without \<^verbatim>\<open>check\<close>
  and its result is dropped (line 166): whenever git runs, the upgrade goes on.
\<close>

datatype clone_result = GitMissing | CloneFailed | CloneBroken tree | Cloned tree

definition backup_dir :: string where
  "backup_dir = ''.backup''"

definition update_dir :: string where
  "update_dir = ''autocrew_update''"

definition config_file :: string where
  "config_file = ''config.ini''"

definition logfile_backup_name :: "string \<Rightarrow> string" where
  "logfile_backup_name latest_version =
     ''autocrew-upgrade-logfile_(v-'' @ AUTOCREW_VERSION @ ''--to--v-'' @ latest_version @ '').log''"

definition logfile_backup_path :: "string \<Rightarrow> string" where
  "logfile_backup_path latest_version = backup_dir @ ''/'' @ logfile_backup_name latest_version"

text \<open>Lines 146 to 159.\<close>

definition upgrade_backup :: "string \<Rightarrow> step" where
  "upgrade_backup latest_version =
     seq (\<lambda>w. if \<not> exists_path (cwd w) [backup_dir]
              then fs_step (\<lambda>t. makedirs t backup_dir) w else (None, w))
    (seq (\<lambda>w. if exists_path (cwd w) [log_file]
              then seq (fs_step (\<lambda>t. copyfile_to t [log_file] (logfile_backup_path latest_version)))
                       (info (''Backing up the current logfile to ''
                              @ logfile_backup_path latest_version @ ''...'')) w
              else (None, w))
    (seq (fs_step (\<lambda>t. copyfile t [config_file] [backup_dir, ''config_backup.ini'']))
         (info ''Backing up the current config.ini file...'')))"

text \<open>Lines 161 to 166.\<close>

definition git_clone :: "clone_result \<Rightarrow> step" where
  "git_clone cl w =
     (case cl of
        GitMissing \<Rightarrow> (Some (FileNotFoundError ''git''), w)
      | CloneFailed \<Rightarrow> (None, w)
      | CloneBroken tr \<Rightarrow> (None, w\<lparr>cwd := AList.update update_dir (Dir tr) (cwd w)\<rparr>)
      | Cloned tr \<Rightarrow> (None, w\<lparr>cwd := AList.update update_dir (Dir tr) (cwd w)\<rparr>))"

definition upgrade_fetch :: "clone_result \<Rightarrow> step" where
  "upgrade_fetch cl =
     seq (\<lambda>w. if exists_path (cwd w) [update_dir]
              then fs_step (\<lambda>t. rmtree t update_dir) w else (None, w))
    (seq (info ''Cloning the latest version from GitHub...'')
         (git_clone cl))"

text \<open>Lines 168 to 172.\<close>

fun copy_files :: "string list \<Rightarrow> step" where
  "copy_files [] w = (None, w)"
| "copy_files (filename # rest) w =
     (if isfile (cwd w) [update_dir, filename] \<and> filename \<noteq> config_file
      then seq (fs_step (\<lambda>t. copyfile t [update_dir, filename] [filename]))
          (seq (info (''Copied '' @ filename @ '' to the current directory.''))
               (copy_files rest)) w
      else copy_files rest w)"

definition upgrade_replace :: step where
  "upgrade_replace w =
     (case listdir (cwd w) [update_dir] of
        Inl e \<Rightarrow> (Some e, w)
      | Inr names \<Rightarrow> copy_files names w)"

text \<open>Lines 174 to 185.\<close>

definition upgrade_config :: "library \<Rightarrow> step" where
  "upgrade_config L =
     seq (info ''Updating the config.ini file with your previous settings...'')
       (\<lambda>w. case config_read L (cwd w) [update_dir, config_file] of
              Inl e \<Rightarrow> (Some e, w)
            | Inr config \<Rightarrow>
                (case config_read L (cwd w) [backup_dir, ''config_backup.ini''] of
                   Inl e \<Rightarrow> (Some e, w)
                 | Inr config_backup \<Rightarrow>
                     (case merge_config L config config_backup of
                        Inl e \<Rightarrow> (Some e, w)
                      | Inr merged \<Rightarrow>
                          fs_step (\<lambda>t. write_file t [config_file] (config_write merged)) w)))"

text \<open>Lines 187 to 192; the \<^verbatim>\<open>sys.exit(0)\<close> is the result without an error.\<close>

definition upgrade_message :: "string \<Rightarrow> string" where
  "upgrade_message latest_version =
     ''Upgrade successful. AutoCrew has been updated from version '' @ AUTOCREW_VERSION
     @ '' to version '' @ latest_version @ ''.''"

definition upgrade_cleanup :: "string \<Rightarrow> step" where
  "upgrade_cleanup latest_version =
     seq (fs_step (\<lambda>t. rmtree t update_dir))
    (seq (info ''Cleaned up the update directory.'')
    (seq (info (upgrade_message latest_version))
         (\<lambda>w. (None, print (upgrade_message latest_version) w))))"

definition upgrade_autocrew :: "library \<Rightarrow> clone_result \<Rightarrow> string \<Rightarrow> step" where
  "upgrade_autocrew L cl latest_version =
     seq (upgrade_backup latest_version)
    (seq (upgrade_fetch cl)
    (seq upgrade_replace
    (seq (upgrade_config L)
         (upgrade_cleanup latest_version))))"

subsection \<open>\<^verbatim>\<open>main\<close>\<close>

text \<open>
  An invocation is the command line, what \<^verbatim>\<open>parse_known_args\<close> makes of it, and the
  two answers of the network. The parser returns the namespace (where \<open>help_flag\<close> is
  the source's \<^verbatim>\<open>help\<close>) and the arguments it does not know, or it ends the process
  itself: \<^verbatim>\<open>argparse\<close> exits with status 2 on a command line it rejects, as it does when
  \<^verbatim>\<open>positive_int\<close> raises \<^verbatim>\<open>ArgumentTypeError\<close> for the value of \<^verbatim>\<open>-m\<close>, and an
  exception of \<^verbatim>\<open>positive_int\<close> that \<^verbatim>\<open>argparse\<close> does not catch (\<^verbatim>\<open>EOFError\<close>) leaves
  \<^verbatim>\<open>main\<close> before anything else has run. What the parser prints is left out.
  \<open>Workflow\<close> is control reaching line 241, where the work is handed to \<^verbatim>\<open>AutoCrew\<close>; an
  exception that nothing catches ends the process with status 1.
\<close>

record args =
  verbose :: bool
  upgrade :: bool
  help_flag :: bool
  overall_goal :: "string option"
  rank :: bool
  auto_run :: bool
  multiple :: "int option"

datatype parsing = Returns | ExitsUsage | Raises error

record invocation =
  argv :: "string list"
  parsing :: parsing
  args :: args
  unknown_args :: "string list"
  release_reply :: remote
  clone_reply :: clone_result

datatype outcome = Exit nat | Uncaught error | Workflow

fun exit_status :: "outcome \<Rightarrow> nat option" where
  "exit_status (Exit n) = Some n"
| "exit_status (Uncaught e) = Some 1"
| "exit_status Workflow = None"

fun join_spaces :: "string list \<Rightarrow> string" where
  "join_spaces [] = []"
| "join_spaces [x] = x"
| "join_spaces (x # y # ys) = x @ '' '' @ join_spaces (y # ys)"

definition startup_message :: "string \<Rightarrow> string" where
  "startup_message version_message =
     [CHR 0x0A] @ ''AutoCrew version: '' @ AUTOCREW_VERSION @ [CHR 0x0A]
     @ version_message @ [CHR 0x0A, CHR 0x0A]
     @ ''Use the -? or -h command line options to display help information.'' @ [CHR 0x0A]
     @ ''Settings can be modified within '' @ [CHR 0x22] @ ''config.ini'' @ [CHR 0x22]
     @ ''. Scripts are saved in the '' @ [CHR 0x22] @ ''scripts'' @ [CHR 0x22]
     @ '' subdirectory.'' @ [CHR 0x0A]
     @ ''If you experience any errors, please create an issue on Github and attach ''
     @ [CHR 0x22] @ ''autocrew.log'' @ [CHR 0x22] @ '':'' @ [CHR 0x0A]
     @ ''https://github.com/yanniedog/autocrew/issues/new'' @ [CHR 0x0A]"

definition usage_text :: string where
  "usage_text = ''usage: autocrew.py [-v] [-u] [-h] [-r] [-a] [-m MULTIPLE] [overall_goal]''"

text \<open>What \<^verbatim>\<open>print_help\<close> prints starts with the usage line and the description; the
  list of the arguments that follows is left out.\<close>

definition help_text :: string where
  "help_text = usage_text @ [CHR 0x0A, CHR 0x0A] @ ''CrewAI Autocrew Script''"

definition usage_error :: string where
  "usage_error =
     ''Error: The '' @ [CHR 0x27] @ ''-u/--upgrade'' @ [CHR 0x27] @ '' and '' @ [CHR 0x27]
     @ ''-h/-?/--help'' @ [CHR 0x27] @ '' options cannot be used with other arguments.''"

definition no_new_version :: string where
  "no_new_version = ''No new version available or you are already running the latest version.''"

text \<open>\<^verbatim>\<open>handle_exception\<close>, the hook installed at line 214.\<close>

definition handle_exception :: "error \<Rightarrow> world \<Rightarrow> outcome \<times> world" where
  "handle_exception e w = (Uncaught e, logging_log ERROR ''Uncaught exception'' w)"

definition main :: "library \<Rightarrow> invocation \<Rightarrow> world \<Rightarrow> outcome \<times> world" where
  "main L call w =
     (case parsing call of
        ExitsUsage \<Rightarrow> (Exit 2, w)
      | Raises e \<Rightarrow> (Uncaught e, w)
      | Returns \<Rightarrow>
     (case initialize_logging L (verbose (args call)) None w of
        (Some e, w1) \<Rightarrow> (Uncaught e, w1)
      | (None, w1) \<Rightarrow>
          (let w2 = logging_log INFO (''Command-line arguments: '' @ join_spaces (argv call)) w1;
               version_message = check_latest_version L (release_reply call);
               w3 = logging_log INFO (startup_message version_message) w2
           in if upgrade (args call) \<or> help_flag (args call) then
                (if unknown_args call \<noteq> [] then
                   (Exit 1, logging_log ERROR usage_error (print usage_text w3))
                 else if upgrade (args call) then
                   (case version_newer L version_message AUTOCREW_VERSION of
                      Inl e \<Rightarrow> handle_exception e w3
                    | Inr newer \<Rightarrow>
                        if newer then
                          (case upgrade_autocrew L (clone_reply call) version_message w3 of
                             (Some e, w4) \<Rightarrow> handle_exception e w4
                           | (None, w4) \<Rightarrow> (Exit 0, w4))
                        else (Exit 0, logging_log INFO no_new_version w3))
                 else (Exit 0, print help_text w3))
              else (Workflow, w3))))"

subsection \<open>Plain libraries, for examples\<close>

text \<open>
  An instance of the libraries for the evaluation of examples, on texts of ASCII
  letters, digits, signs and blanks. Its \<^verbatim>\<open>int\<close> drops surrounding whitespace, allows
  one sign, then reads decimal digits, where single underscores may stand between
  digits, and refuses more than 4300 digits. Its versions are the release-only ones: an
  optional letter v and numbers separated by dots, compared after dropping trailing
  zeros; any other text is refused with \<^verbatim>\<open>InvalidVersion\<close> (the versions with further
  parts, as \<^verbatim>\<open>2.2.0rc1\<close>, are outside this instance). Its reader of configurations knows
  section headers, lines \<^verbatim>\<open>key = value\<close> and empty lines, and its interpolation knows
  the values without a percent sign, which it leaves as they are.
\<close>

definition is_space :: "char \<Rightarrow> bool" where
  "is_space c = (let n = (of_char c :: nat) in (9 \<le> n \<and> n \<le> 13) \<or> n = 32)"

definition strip :: "string \<Rightarrow> string" where
  "strip s = rev (dropWhile is_space (rev (dropWhile is_space s)))"

definition digit_of :: "char \<Rightarrow> nat option" where
  "digit_of c = (let n = (of_char c :: nat) in if 48 \<le> n \<and> n \<le> 57 then Some (n - 48) else None)"

fun dec_digits :: "string \<Rightarrow> nat \<Rightarrow> bool \<Rightarrow> nat option" where
  "dec_digits [] acc after_digit = (if after_digit then Some acc else None)"
| "dec_digits (c # cs) acc after_digit =
     (case digit_of c of
        Some d \<Rightarrow> dec_digits cs (10 * acc + d) True
      | None \<Rightarrow>
          if c = CHR ''_'' \<and> after_digit \<and> cs \<noteq> [] then dec_digits cs acc False else None)"

definition digits_in :: "string \<Rightarrow> nat" where
  "digits_in s = length (filter (\<lambda>c. digit_of c \<noteq> None) s)"

definition py_int :: "string \<Rightarrow> int option" where
  "py_int s =
     (if 4300 < digits_in s then None
      else (case strip s of
        [] \<Rightarrow> None
      | c # cs \<Rightarrow>
          if c = CHR ''-'' then map_option (\<lambda>n. - int n) (dec_digits cs 0 False)
          else if c = CHR ''+'' then map_option int (dec_digits cs 0 False)
          else map_option int (dec_digits (c # cs) 0 False)))"

fun number_of :: "string \<Rightarrow> nat \<Rightarrow> bool \<Rightarrow> nat option" where
  "number_of [] acc seen = (if seen then Some acc else None)"
| "number_of (c # cs) acc seen =
     (case digit_of c of Some d \<Rightarrow> number_of cs (10 * acc + d) True | None \<Rightarrow> None)"

definition version_parse :: "string \<Rightarrow> error + nat list" where
  "version_parse s =
     (let t = strip s;
          r = (case t of [] \<Rightarrow> [] | c # cs \<Rightarrow> if c = CHR ''v'' \<or> c = CHR ''V'' then cs else t)
      in case those (map (\<lambda>p. number_of p 0 False) (split_at CHR ''.'' r)) of
           Some ns \<Rightarrow> Inr ns
         | None \<Rightarrow> Inl (InvalidVersion (''Invalid version: '' @ [CHR 0x27] @ s @ [CHR 0x27])))"

definition release_key :: "nat list \<Rightarrow> nat list" where
  "release_key r = rev (dropWhile (\<lambda>x. x = 0) (rev r))"

fun tuple_gt :: "nat list \<Rightarrow> nat list \<Rightarrow> bool" where
  "tuple_gt [] ys = False"
| "tuple_gt (x # xs) [] = True"
| "tuple_gt (x # xs) (y # ys) = (y < x \<or> (x = y \<and> tuple_gt xs ys))"

definition version_gt :: "string \<Rightarrow> string \<Rightarrow> error + bool" where
  "version_gt a b =
     (case version_parse a of
        Inl e \<Rightarrow> Inl e
      | Inr x \<Rightarrow>
          (case version_parse b of
             Inl e \<Rightarrow> Inl e
           | Inr y \<Rightarrow> Inr (tuple_gt (release_key x) (release_key y))))"

fun split_option :: "string \<Rightarrow> (string \<times> string) option" where
  "split_option [] = None"
| "split_option (c # cs) =
     (if take 3 (c # cs) = '' = '' then Some ([], drop 3 (c # cs))
      else map_option (\<lambda>kv. (c # fst kv, snd kv)) (split_option cs))"

definition put_option :: "config \<Rightarrow> string \<Rightarrow> string \<Rightarrow> string \<Rightarrow> config" where
  "put_option c s k v =
     (if s = DEFAULT then c\<lparr>defaults := AList.update k v (defaults c)\<rparr>
      else c\<lparr>sections :=
               AList.update s
                 (AList.update k v (case map_of (sections c) s of None \<Rightarrow> [] | Some opts \<Rightarrow> opts))
                 (sections c)\<rparr>)"

fun read_lines :: "string list \<Rightarrow> string \<Rightarrow> config \<Rightarrow> error + config" where
  "read_lines [] cur c = Inr c"
| "read_lines (l # ls) cur c =
     (if l = [] then read_lines ls cur c
      else if hd l = CHR ''['' \<and> last l = CHR '']'' then
        (let s = butlast (tl l) in
         if s = DEFAULT then read_lines ls s c
         else (case add_section c s of Inl e \<Rightarrow> Inl e | Inr c' \<Rightarrow> read_lines ls s c'))
      else (case split_option l of
              None \<Rightarrow> Inl (ConfigParserError ''Source contains parsing errors'')
            | Some kv \<Rightarrow>
                if cur = [] then Inl (ConfigParserError ''File contains no section headers'')
                else read_lines ls cur (put_option c cur (fst kv) (snd kv))))"

definition plain_parser :: library where
  "plain_parser =
     \<lparr>int_of = py_int,
      version_newer = version_gt,
      read_string = (\<lambda>s. read_lines (split_at CHR 0x0A s) [] empty_config),
      before_get = (\<lambda>d k v. if CHR ''%'' \<in> set v
                              then Inl (ConfigParserError ''Bad value substitution'')
                              else Inr v),
      before_set = (\<lambda>v. if CHR ''%'' \<in> set v
                          then Some (ValueError ''invalid interpolation syntax'')
                          else None)\<rparr>"

subsection \<open>An installation, for examples\<close>

text \<open>
  A working directory with the program, a configuration and the log of an earlier run;
  the same while the program runs, the two handlers attached and the file handler at
  the end of the log; a directory without \<^verbatim>\<open>config.ini\<close>; one without a log file; one
  whose \<^verbatim>\<open>config.ini\<close> has no section header; one whose backup directory holds a
  directory; one with the update directory of an earlier run; and fetched trees: one
  with a new program, a package directory and the new default configuration, one that
  is only part of it, and one with a log file as well.
\<close>

definition old_config :: string where
  "old_config =
     ''[MISCELLANEOUS]'' @ [CHR 0x0A] @ ''on_screen_logging_level = warning'' @ [CHR 0x0A]"

definition installed :: world where
  "installed =
     \<lparr>cwd = [(''autocrew.py'', File ''old program''), (''config.ini'', File old_config),
             (''autocrew.log'', File ''log of the previous run'')],
      handlers = [], stdout = []\<rparr>"

definition no_args :: args where
  "no_args =
     \<lparr>verbose = False, upgrade = False, help_flag = False, overall_goal = None,
      rank = False, auto_run = False, multiple = None\<rparr>"

definition log_length :: "tree \<Rightarrow> nat" where
  "log_length t = (case map_of t log_file of Some (File c) \<Rightarrow> length c | _ \<Rightarrow> 0)"

definition logging_on :: "world \<Rightarrow> world" where
  "logging_on w = w\<lparr>handlers := [FileHandler DEBUG (log_length (cwd w)), StreamHandler INFO]\<rparr>"

definition first_run :: world where
  "first_run =
     \<lparr>cwd = [(''autocrew.py'', File ''old program''), (''autocrew.log'', File ''log of this run'')],
      handlers = [FileHandler DEBUG 15, StreamHandler INFO], stdout = []\<rparr>"

definition no_log :: world where
  "no_log =
     \<lparr>cwd = [(''autocrew.py'', File ''old program''), (''config.ini'', File old_config)],
      handlers = [StreamHandler INFO], stdout = []\<rparr>"

definition headerless :: world where
  "headerless =
     \<lparr>cwd = [(''autocrew.py'', File ''old program''),
             (''config.ini'', File (''on_screen_logging_level = warning'' @ [CHR 0x0A])),
             (''autocrew.log'', File ''log of the previous run'')],
      handlers = [StreamHandler 0, FileHandler 0 23], stdout = []\<rparr>"

definition with_backups :: world where
  "with_backups =
     \<lparr>cwd = [(''autocrew.py'', File ''old program''), (''config.ini'', File old_config),
             (''autocrew.log'', File ''log of this run''),
             (''.backup'', Dir [(''autocrew-upgrade-logfile_(v-2.1.4--to--v-2.2.0'', Dir [])])],
      handlers = [FileHandler DEBUG 15, StreamHandler INFO], stdout = []\<rparr>"

definition leftover :: world where
  "leftover =
     \<lparr>cwd = [(''autocrew.py'', File ''old program''), (''config.ini'', File old_config),
             (''autocrew.log'', File ''log of this run''),
             (''autocrew_update'', Dir [(''autocrew.py'', File ''half a program'')])],
      handlers = [FileHandler DEBUG 15, StreamHandler INFO], stdout = []\<rparr>"

definition fetched_text :: string where
  "fetched_text =
     ''[MISCELLANEOUS]'' @ [CHR 0x0A] @ ''on_screen_logging_level = INFO'' @ [CHR 0x0A]
     @ ''new_setting = 1'' @ [CHR 0x0A]"

definition fetched_tree :: tree where
  "fetched_tree =
     [(''autocrew.py'', File ''new program''),
      (''core'', Dir [(''agents.py'', File ''new agents'')]),
      (''config.ini'', File fetched_text)]"

definition partial_tree :: tree where
  "partial_tree = [(''.git'', Dir []), (''autocrew.py'', File ''new program'')]"


text \<open>Parser objects: a fetched default configuration, the configuration of a user, their
  merge, and a configuration that has a default section only.\<close>

definition fetched_config :: config where
  "fetched_config =
     \<lparr>defaults = [],
      sections = [(''MISCELLANEOUS'',
                   [(''on_screen_logging_level'', ''INFO''), (''new_setting'', ''1'')])]\<rparr>"

definition previous_config :: config where
  "previous_config =
     \<lparr>defaults = [(''timeout'', ''30'')],
      sections = [(''MISCELLANEOUS'', [(''on_screen_logging_level'', ''warning'')]),
                  (''OLD'', [(''legacy'', ''yes'')])]\<rparr>"

definition merged_config :: config where
  "merged_config =
     \<lparr>defaults = [],
      sections = [(''MISCELLANEOUS'',
                   [(''on_screen_logging_level'', ''warning''), (''new_setting'', ''1''),
                    (''timeout'', ''30'')]),
                  (''OLD'', [(''timeout'', ''30''), (''legacy'', ''yes'')])]\<rparr>"


subsection \<open>Notions for the statements\<close>

text \<open>
  The option a section holds itself, apart from the defaults. The shape every parser
  object has: the keys of a dictionary are distinct, and no named section has the empty
  name or the name of the default section.
\<close>

definition own_option :: "config \<Rightarrow> string \<Rightarrow> string \<Rightarrow> string option" where
  "own_option c s k = (case map_of (sections c) s of None \<Rightarrow> None | Some opts \<Rightarrow> map_of opts k)"

definition well_formed :: "config \<Rightarrow> bool" where
  "well_formed c =
     (distinct (map fst (defaults c)) \<and> list_all (\<lambda>s. s \<noteq> [] \<and> s \<noteq> DEFAULT) (config_sections c))"

text \<open>
  What the merge leaves behind for a section of the backup: the section is there, and
  each item of the backup is in it, with a value that \<^verbatim>\<open>set\<close> accepts.
\<close>

definition set_ok :: "library \<Rightarrow> string \<Rightarrow> bool" where
  "set_ok L v = ((if v = [] then None else before_set L v) = None)"

definition settled :: "library \<Rightarrow> config \<Rightarrow> config \<Rightarrow> string \<Rightarrow> bool" where
  "settled L b r s =
     (has_section r s \<and>
      (\<exists>kvs. config_items L b s = Inr kvs \<and>
         list_all (\<lambda>kv. set_ok L (snd kv) \<and> own_option r s (fst kv) = Some (snd kv)) kvs))"

text \<open>
  \<open>keeps N f\<close>: the step \<open>f\<close> leaves every entry of the working directory whose name
  is not in \<open>N\<close> as it was, whether it raises or not. \<open>holds n f\<close>: the step \<open>f\<close>
  leaves the entry \<open>n\<close>, when it is a regular file, with the content it had.
\<close>

definition keeps :: "string set \<Rightarrow> step \<Rightarrow> bool" where
  "keeps N f = (\<forall>w n. n \<notin> N \<longrightarrow> map_of (cwd (snd (f w))) n = map_of (cwd w) n)"

definition holds :: "string \<Rightarrow> step \<Rightarrow> bool" where
  "holds n f =
     (\<forall>w x. map_of (cwd w) n = Some (File x) \<longrightarrow> map_of (cwd (snd (f w))) n = Some (File x))"

section \<open>Properties\<close>

subsection \<open>The argument type \<^verbatim>\<open>positive_int\<close>\<close>

lemma input_loop_error: "fst (input_loop L inp) = Inl e \<Longrightarrow> e = EOFError"
  by (induction inp) (auto split: option.splits prod.splits)

lemma input_loop_first:
  "\<forall>x \<in> set pre. int_of L x = None \<Longrightarrow> int_of L l = Some i \<Longrightarrow>
   input_loop L (pre @ l # post)
     = (Inr i, replicate (length pre) ''Invalid input. Please enter a valid number.'')"
  by (induction pre) (auto split: prod.splits)

lemma input_loop_end:
  "\<forall>x \<in> set inp. int_of L x = None \<Longrightarrow>
   input_loop L inp
     = (Inl EOFError, replicate (length inp) ''Invalid input. Please enter a valid number.'')"
  by (induction inp) (auto split: prod.splits)

text \<open>
  Claim C9, amended. \<^verbatim>\<open>positive_int\<close> raises the usage error \<^verbatim>\<open>ArgumentTypeError\<close>
  exactly for a value that \<^verbatim>\<open>int\<close> reads as an integer less than or equal to zero. For
  a value that \<^verbatim>\<open>int\<close> does not read, it prints the prompt and reads lines, answering
  each line that is no integer with a notice, until a line is an integer, and returns
  that integer whatever its sign: nothing in the statement asks \<open>i\<close> to be positive.
  When the input ends before an integer was entered, it raises \<^verbatim>\<open>EOFError\<close>.
\<close>

theorem positive_int_usage_error:
  "((\<exists>msg. fst (positive_int L v inp) = Inl (ArgumentTypeError msg)) \<longleftrightarrow>
      (\<exists>i. int_of L v = Some i \<and> i \<le> 0))
   \<and> (int_of L v = None \<and> (\<forall>x \<in> set pre. int_of L x = None) \<and> int_of L l = Some i \<longrightarrow>
        positive_int L v (pre @ l # post) =
          (Inr i, ''Please specify the total number of alternative scripts to generate: ''
                  # replicate (length pre) ''Invalid input. Please enter a valid number.''))
   \<and> (int_of L v = None \<and> (\<forall>x \<in> set inp. int_of L x = None) \<longrightarrow>
        positive_int L v inp =
          (Inl EOFError, ''Please specify the total number of alternative scripts to generate: ''
                  # replicate (length inp) ''Invalid input. Please enter a valid number.''))"
proof (intro conjI impI)
  show "(\<exists>msg. fst (positive_int L v inp) = Inl (ArgumentTypeError msg)) \<longleftrightarrow>
      (\<exists>i. int_of L v = Some i \<and> i \<le> 0)"
  proof (cases "int_of L v")
    case None
    have "fst (positive_int L v inp) = fst (input_loop L inp)"
      using None by (simp add: positive_int_def split: prod.splits)
    then show ?thesis
      using None input_loop_error [of L inp] by auto
  next
    case (Some i)
    then show ?thesis by (simp add: positive_int_def)
  qed
next
  assume a: "int_of L v = None \<and> (\<forall>x \<in> set pre. int_of L x = None) \<and> int_of L l = Some i"
  then show "positive_int L v (pre @ l # post) =
          (Inr i, ''Please specify the total number of alternative scripts to generate: ''
                  # replicate (length pre) ''Invalid input. Please enter a valid number.'')"
    using input_loop_first [of pre L l i post] by (simp add: positive_int_def)
next
  assume a: "int_of L v = None \<and> (\<forall>x \<in> set inp. int_of L x = None)"
  then show "positive_int L v inp =
          (Inl EOFError, ''Please specify the total number of alternative scripts to generate: ''
                  # replicate (length inp) ''Invalid input. Please enter a valid number.'')"
    using input_loop_end [of inp L] by (simp add: positive_int_def)
qed

theorem positive_int_usage_error_witness:
  "int_of plain_parser ''many'' = None \<and> int_of plain_parser ''x'' = None
   \<and> int_of plain_parser ''-3'' = Some (- 3)
   \<and> positive_int plain_parser ''many'' [''x'', ''-3''] =
       (Inr (- 3), [''Please specify the total number of alternative scripts to generate: '',
                    ''Invalid input. Please enter a valid number.''])
   \<and> fst (positive_int plain_parser ''many'' [''0'']) = Inr 0
   \<and> fst (positive_int plain_parser ''-3'' []) = Inl (ArgumentTypeError ''-3 is an invalid positive int value'')
   \<and> fst (positive_int plain_parser ''7'' []) = Inr 7"
proof -
  have a: "int_of plain_parser ''many'' = None" by code_simp
  have b: "int_of plain_parser ''x'' = None" by code_simp
  have c: "int_of plain_parser ''-3'' = Some (- 3)" by code_simp
  have d: "int_of plain_parser ''0'' = Some 0" by code_simp
  have e: "int_of plain_parser ''7'' = Some 7" by code_simp
  have "positive_int plain_parser ''many'' ([''x''] @ ''-3'' # []) =
       (Inr (- 3), [''Please specify the total number of alternative scripts to generate: '',
                    ''Invalid input. Please enter a valid number.''])"
    using positive_int_usage_error [of plain_parser "''many''" "[]" "[''x'']" "''-3''" "- 3" "[]"] a b c
    by simp
  moreover have "fst (positive_int plain_parser ''many'' ([] @ ''0'' # [])) = Inr 0"
    using positive_int_usage_error [of plain_parser "''many''" "[]" "[]" "''0''" "0" "[]"] a d
    by simp
  moreover have "fst (positive_int plain_parser ''-3'' []) = Inl (ArgumentTypeError ''-3 is an invalid positive int value'')"
    using c by (simp add: positive_int_def)
  moreover have "fst (positive_int plain_parser ''7'' []) = Inr 7"
    using e by (simp add: positive_int_def)
  ultimately show ?thesis using a b c by simp
qed

text \<open>
  Claim C9 as stated fails where it says that an unreadable value never raises: with no
  line left to read, or only lines that are no integers, \<^verbatim>\<open>input\<close> raises \<^verbatim>\<open>EOFError\<close>,
  which the handler for \<^verbatim>\<open>ValueError\<close> does not catch.
\<close>

theorem positive_int_usage_error_counterexample:
  "int_of plain_parser ''many'' = None
   \<and> fst (positive_int plain_parser ''many'' []) = Inl EOFError
   \<and> fst (positive_int plain_parser ''many'' [''a few'', '''']) = Inl EOFError"
  by code_simp

subsection \<open>Logging and the files\<close>

lemma write_log_other: "n \<noteq> log_file \<Longrightarrow> map_of (write_log t p s) n = map_of t n"
  by (simp add: write_log_def update_conv' split: option.splits node.splits)


lemma emit_other: "n \<noteq> log_file \<Longrightarrow> map_of (cwd (snd (emit l msg h w))) n = map_of (cwd w) n"
  by (cases h) (simp_all add: write_log_other)

lemma emit_all_other:
  "n \<noteq> log_file \<Longrightarrow> map_of (cwd (snd (emit_all l msg hs w))) n = map_of (cwd w) n"
proof (induction hs arbitrary: w)
  case Nil
  then show ?case by simp
next
  case (Cons h hs)
  obtain h' w1 where e: "emit l msg h w = (h', w1)" by (cases "emit l msg h w")
  obtain hs' w2 where a: "emit_all l msg hs w1 = (hs', w2)" by (cases "emit_all l msg hs w1")
  have "map_of (cwd w2) n = map_of (cwd w1) n" using Cons.IH [OF Cons.prems, of w1] a by simp
  also have "\<dots> = map_of (cwd w) n" using emit_other [OF Cons.prems, of l msg h w] e by simp
  finally show ?case using e a by simp
qed

lemma logging_log_cwd: "cwd (logging_log l msg w) = cwd (snd (emit_all l msg (handlers w) w))"
  by (simp add: logging_log_def split: prod.splits)

lemma logging_log_other:
  "n \<noteq> log_file \<Longrightarrow> map_of (cwd (logging_log l msg w)) n = map_of (cwd w) n"
  by (simp add: logging_log_cwd emit_all_other)




lemma write_at_end: "write_at c (length c) s = c @ s"
  by (simp add: write_at_def)

lemma logging_log_file:
  assumes "handlers w = [FileHandler DEBUG (length c), StreamHandler hl]" "DEBUG \<le> l"
    "map_of (cwd w) log_file = Some (File c)"
  shows "map_of (cwd (logging_log l msg w)) log_file = Some (File (c @ log_line l msg))"
    and "handlers (logging_log l msg w)
           = [FileHandler DEBUG (length (c @ log_line l msg)), StreamHandler hl]"
  using assms by (simp_all add: logging_log_def write_log_def write_at_end update_conv')

lemma initialize_logging_other:
  "n \<noteq> log_file \<Longrightarrow>
   map_of (cwd (snd (initialize_logging L v message w))) n = map_of (cwd w) n"
  by (auto simp: initialize_logging_def Let_def update_conv' logging_log_other
      split: sum.splits option.splits node.splits)

lemma initialize_logging_ok:
  assumes "initialize_logging L v message w = (None, w')"
  shows "\<exists>hl. handlers w' = [FileHandler DEBUG (length (case message of None \<Rightarrow> [] | Some m \<Rightarrow> if m = [] then [] else log_line INFO m)), StreamHandler hl]"
    and "map_of (cwd w') log_file =
           Some (File (case message of None \<Rightarrow> [] | Some m \<Rightarrow> if m = [] then [] else log_line INFO m))"
  using assms
  by (auto simp: initialize_logging_def Let_def update_conv' logging_log_def write_log_def
      write_at_def DEBUG_def INFO_def
      split: sum.splits option.splits node.splits if_splits)

subsection \<open>The dispatch of \<^verbatim>\<open>main\<close>\<close>

lemma version_notice_failure:
  "latest_tag r = Inl e \<Longrightarrow>
   check_latest_version L r = ''Error checking for the latest version: '' @ error_text e"
  by (simp add: check_latest_version_def version_notice_def)

lemma version_notice_invalid:
  "latest_tag r = Inr t \<Longrightarrow> version_newer L t AUTOCREW_VERSION = Inl e \<Longrightarrow>
   check_latest_version L r = ''Error checking for the latest version: '' @ error_text e"
  by (simp add: check_latest_version_def version_notice_def)

lemma main_workflow:
  assumes "parsing call = Returns"
    "fst (initialize_logging L (verbose (args call)) None w) = None"
    "\<not> upgrade (args call)" "\<not> help_flag (args call)"
  shows "fst (main L call w) = Workflow"
proof -
  obtain w1 where "initialize_logging L (verbose (args call)) None w = (None, w1)"
    using assms(2) by (cases "initialize_logging L (verbose (args call)) None w") auto
  then show ?thesis using assms by (simp add: main_def Let_def)
qed

lemma main_upgrade_raises:
  assumes "parsing call = Returns"
    "initialize_logging L (verbose (args call)) None w = (None, w1)"
    "upgrade (args call)" "unknown_args call = []"
    "version_newer L (check_latest_version L (release_reply call)) AUTOCREW_VERSION = Inl e"
  shows "fst (main L call w) = Uncaught e"
  using assms by (simp add: main_def Let_def handle_exception_def)

text \<open>
  Claim C1, at the claim's own input. With \<^verbatim>\<open>--upgrade\<close> and the remote tag 2.1.4
  the check finds no newer version and returns its sentence; \<^verbatim>\<open>main\<close> (line 232) hands
  that sentence, not the tag, to \<^verbatim>\<open>version.parse\<close>, which raises. No handler is
  around it: the process ends with status 1, and the message that no new version is
  available is never logged.
\<close>

theorem main_upgrade_same_version:
  "check_latest_version plain_parser (TagName ''2.1.4'')
     = ''You are running the latest version of AutoCrew.''
   \<and> fst (main plain_parser
         \<lparr>argv = [''--upgrade''], parsing = Returns, args = no_args\<lparr>upgrade := True\<rparr>,
          unknown_args = [], release_reply = TagName ''2.1.4'', clone_reply = CloneFailed\<rparr>
         installed)
       = Uncaught (InvalidVersion (''Invalid version: '' @ [CHR 0x27]
                   @ ''You are running the latest version of AutoCrew.'' @ [CHR 0x27]))
   \<and> exit_status (fst (main plain_parser
         \<lparr>argv = [''--upgrade''], parsing = Returns, args = no_args\<lparr>upgrade := True\<rparr>,
          unknown_args = [], release_reply = TagName ''2.1.4'', clone_reply = CloneFailed\<rparr>
         installed)) = Some 1"
proof -
  have c: "check_latest_version plain_parser (TagName ''2.1.4'')
     = ''You are running the latest version of AutoCrew.''"
    by code_simp
  have p: "version_newer plain_parser ''You are running the latest version of AutoCrew.''
             AUTOCREW_VERSION
     = Inl (InvalidVersion (''Invalid version: '' @ [CHR 0x27]
                   @ ''You are running the latest version of AutoCrew.'' @ [CHR 0x27]))"
    by code_simp
  have i: "fst (initialize_logging plain_parser False None installed) = None"
    by code_simp
  obtain w1 where "initialize_logging plain_parser False None installed = (None, w1)"
    using i by (cases "initialize_logging plain_parser False None installed") auto
  then have "fst (main plain_parser
         \<lparr>argv = [''--upgrade''], parsing = Returns, args = no_args\<lparr>upgrade := True\<rparr>,
          unknown_args = [], release_reply = TagName ''2.1.4'', clone_reply = CloneFailed\<rparr>
         installed)
       = Uncaught (InvalidVersion (''Invalid version: '' @ [CHR 0x27]
                   @ ''You are running the latest version of AutoCrew.'' @ [CHR 0x27]))"
    using c p
    by (intro main_upgrade_raises [where ?w1.0 = w1]) (simp_all add: no_args_def)
  then show ?thesis using c by simp
qed

text \<open>
  Claim C8, at an input where it fails. The request to the releases endpoint fails;
  \<^verbatim>\<open>check_latest_version\<close> catches the exception and returns its sentence. With
  \<^verbatim>\<open>--upgrade\<close>, \<^verbatim>\<open>main\<close> (line 232) hands that sentence to \<^verbatim>\<open>version.parse\<close>, which
  raises: the failed check ends the program with status 1.
\<close>

theorem version_check_failure_aborts:
  "check_latest_version plain_parser (RequestFailed ''Connection refused'')
     = ''Error checking for the latest version: Connection refused''
   \<and> fst (main plain_parser
         \<lparr>argv = [''--upgrade''], parsing = Returns, args = no_args\<lparr>upgrade := True\<rparr>,
          unknown_args = [], release_reply = RequestFailed ''Connection refused'',
          clone_reply = Cloned fetched_tree\<rparr> installed)
       = Uncaught (InvalidVersion (''Invalid version: '' @ [CHR 0x27]
                   @ ''Error checking for the latest version: Connection refused'' @ [CHR 0x27]))
   \<and> exit_status (fst (main plain_parser
         \<lparr>argv = [''--upgrade''], parsing = Returns, args = no_args\<lparr>upgrade := True\<rparr>,
          unknown_args = [], release_reply = RequestFailed ''Connection refused'',
          clone_reply = Cloned fetched_tree\<rparr> installed)) = Some 1"
proof -
  have c: "check_latest_version plain_parser (RequestFailed ''Connection refused'')
     = ''Error checking for the latest version: Connection refused''"
    by code_simp
  have p: "version_newer plain_parser ''Error checking for the latest version: Connection refused''
             AUTOCREW_VERSION
     = Inl (InvalidVersion (''Invalid version: '' @ [CHR 0x27]
                   @ ''Error checking for the latest version: Connection refused'' @ [CHR 0x27]))"
    by code_simp
  have i: "fst (initialize_logging plain_parser False None installed) = None"
    by code_simp
  obtain w1 where "initialize_logging plain_parser False None installed = (None, w1)"
    using i by (cases "initialize_logging plain_parser False None installed") auto
  then have "fst (main plain_parser
         \<lparr>argv = [''--upgrade''], parsing = Returns, args = no_args\<lparr>upgrade := True\<rparr>,
          unknown_args = [], release_reply = RequestFailed ''Connection refused'',
          clone_reply = Cloned fetched_tree\<rparr> installed)
       = Uncaught (InvalidVersion (''Invalid version: '' @ [CHR 0x27]
                   @ ''Error checking for the latest version: Connection refused'' @ [CHR 0x27]))"
    using c p
    by (intro main_upgrade_raises [where ?w1.0 = w1]) (simp_all add: no_args_def)
  then show ?thesis using c by simp
qed

text \<open>
  Claim C10, amended. When \<^verbatim>\<open>initialize_logging\<close> returns, the root logger has exactly
  the two handlers it has just made, whatever handlers were attached before, the file
  handler at the end of the log, and \<^verbatim>\<open>autocrew.log\<close> holds only what this call
  logged, whatever it held before. Every other entry of the working directory, the
  backup directory among them, is as it was. When the reading of \<^verbatim>\<open>config.ini\<close> raises
  (line 48), the call raises with nothing done: the handlers and the log file are as
  they were.
\<close>

theorem initialize_logging_truncates:
  "(initialize_logging L v message w = (None, w') \<longrightarrow>
      (\<exists>hl. handlers w' =
          [FileHandler DEBUG
             (length (case message of None \<Rightarrow> [] | Some m \<Rightarrow> if m = [] then [] else log_line INFO m)),
           StreamHandler hl])
     \<and> map_of (cwd w') log_file =
         Some (File (case message of None \<Rightarrow> [] | Some m \<Rightarrow> if m = [] then [] else log_line INFO m))
     \<and> (\<forall>n. n \<noteq> log_file \<longrightarrow> map_of (cwd w') n = map_of (cwd w) n))
   \<and> (config_read L (cwd w) [''config.ini''] = Inl e \<longrightarrow>
        initialize_logging L v message w = (Some e, w))"
proof (intro conjI impI)
  assume a: "initialize_logging L v message w = (None, w')"
  show "\<exists>hl. handlers w' =
          [FileHandler DEBUG
             (length (case message of None \<Rightarrow> [] | Some m \<Rightarrow> if m = [] then [] else log_line INFO m)),
           StreamHandler hl]"
    by (rule initialize_logging_ok(1) [OF a])
  show "map_of (cwd w') log_file =
         Some (File (case message of None \<Rightarrow> [] | Some m \<Rightarrow> if m = [] then [] else log_line INFO m))"
    by (rule initialize_logging_ok(2) [OF a])
  show "\<forall>n. n \<noteq> log_file \<longrightarrow> map_of (cwd w') n = map_of (cwd w) n"
    using initialize_logging_other [of _ L v message w] a by simp
next
  assume "config_read L (cwd w) [''config.ini''] = Inl e"
  then show "initialize_logging L v message w = (Some e, w)"
    by (simp add: initialize_logging_def)
qed

theorem initialize_logging_truncates_witness:
  "map_of (cwd (installed\<lparr>handlers := [StreamHandler 0, FileHandler 0 23]\<rparr>)) log_file
     = Some (File ''log of the previous run'')
   \<and> fst (initialize_logging plain_parser False (Some ''start'')
           (installed\<lparr>handlers := [StreamHandler 0, FileHandler 0 23]\<rparr>)) = None
   \<and> handlers (snd (initialize_logging plain_parser False (Some ''start'')
           (installed\<lparr>handlers := [StreamHandler 0, FileHandler 0 23]\<rparr>)))
       = [FileHandler DEBUG 13, StreamHandler 30]
   \<and> map_of (cwd (snd (initialize_logging plain_parser False (Some ''start'')
           (installed\<lparr>handlers := [StreamHandler 0, FileHandler 0 23]\<rparr>)))) log_file
       = Some (File (log_line INFO ''start''))
   \<and> map_of (cwd (snd (initialize_logging plain_parser False (Some ''start'')
           (installed\<lparr>handlers := [StreamHandler 0, FileHandler 0 23]\<rparr>)))) ''config.ini''
       = Some (File old_config)
   \<and> initialize_logging plain_parser False (Some ''start'') headerless
       = (Some (ConfigParserError ''File contains no section headers''), headerless)"
proof -
  let ?w = "installed\<lparr>handlers := [StreamHandler 0, FileHandler 0 23]\<rparr>"
  let ?r = "initialize_logging plain_parser False (Some ''start'') ?w"
  have i: "fst ?r = None" by code_simp
  have h: "handlers (snd ?r) = [FileHandler DEBUG 13, StreamHandler 30]" by code_simp
  have r: "?r = (None, snd ?r)" using i by (cases ?r) auto
  have o: "map_of (cwd ?w) log_file = Some (File ''log of the previous run'')"
    by (simp add: installed_def log_file_def)
  have c: "map_of (cwd ?w) ''config.ini'' = Some (File old_config)"
    by (simp add: installed_def)
  have n: "''config.ini'' \<noteq> log_file" by (simp add: log_file_def)
  have e: "config_read plain_parser (cwd headerless) [''config.ini'']
     = Inl (ConfigParserError ''File contains no section headers'')" by code_simp
  note t1 = initialize_logging_truncates
      [of plain_parser False "Some ''start''" ?w "snd ?r" EOFError]
  note t2 = initialize_logging_truncates
      [of plain_parser False "Some ''start''" headerless headerless
          "ConfigParserError ''File contains no section headers''"]
  have "map_of (cwd (snd ?r)) log_file = Some (File (log_line INFO ''start''))"
    using t1 r by simp
  moreover have "map_of (cwd (snd ?r)) ''config.ini'' = Some (File old_config)"
    using t1 r c n by simp
  moreover have "initialize_logging plain_parser False (Some ''start'') headerless
       = (Some (ConfigParserError ''File contains no section headers''), headerless)"
    using t2 e by simp
  ultimately show ?thesis using i h o by simp
qed

text \<open>
  Claim C10 as stated fails for an invocation that finds a \<^verbatim>\<open>config.ini\<close> it cannot
  read, here one without a section header: \<^verbatim>\<open>config.read\<close> raises before anything is
  done, the handlers attached before are still attached, and the log file still holds
  the log of the previous run.
\<close>

theorem initialize_logging_truncates_counterexample:
  "fst (initialize_logging plain_parser False None headerless)
     = Some (ConfigParserError ''File contains no section headers'')
   \<and> handlers (snd (initialize_logging plain_parser False None headerless))
       = [StreamHandler 0, FileHandler 0 23]
   \<and> map_of (cwd (snd (initialize_logging plain_parser False None headerless))) log_file
       = Some (File ''log of the previous run'')"
  by code_simp

lemma print_cwd: "cwd (print s w) = cwd w" and print_handlers: "handlers (print s w) = handlers w"
  by (simp_all add: print_def)

lemma main_usage_world:
  assumes "parsing call = Returns"
    "initialize_logging L (verbose (args call)) None w = (None, w1)"
    "upgrade (args call) \<or> help_flag (args call)" "unknown_args call \<noteq> []"
  shows "main L call w =
     (Exit 1, logging_log ERROR usage_error (print usage_text
        (logging_log INFO (startup_message (check_latest_version L (release_reply call)))
          (logging_log INFO (''Command-line arguments: '' @ join_spaces (argv call)) w1))))"
  using assms by (simp add: main_def Let_def)

lemma main_usage_log:
  assumes p: "parsing call = Returns"
    and w1: "initialize_logging L (verbose (args call)) None w = (None, w1)"
    and a: "upgrade (args call) \<or> help_flag (args call)" "unknown_args call \<noteq> []"
  shows "\<exists>pre. map_of (cwd (snd (main L call w))) log_file =
                 Some (File (pre @ log_line ERROR usage_error))"
proof -
  note m = main_usage_world [OF p w1 a]
  from initialize_logging_ok [OF w1] obtain hl where
    h1: "handlers w1 = [FileHandler DEBUG (length ([]::string)), StreamHandler hl]"
    and f1: "map_of (cwd w1) log_file = Some (File [])" by auto
  let ?l2 = "log_line INFO (''Command-line arguments: '' @ join_spaces (argv call))"
  let ?l3 = "log_line INFO (startup_message (check_latest_version L (release_reply call)))"
  let ?w2 = "logging_log INFO (''Command-line arguments: '' @ join_spaces (argv call)) w1"
  let ?w3 = "logging_log INFO (startup_message (check_latest_version L (release_reply call))) ?w2"
  let ?w4 = "print usage_text ?w3"
  have d: "DEBUG \<le> INFO" "DEBUG \<le> ERROR" by (simp_all add: DEBUG_def INFO_def ERROR_def)
  have f2: "map_of (cwd ?w2) log_file = Some (File ([] @ ?l2))"
    by (rule logging_log_file(1) [OF h1 d(1) f1])
  have h2: "handlers ?w2 = [FileHandler DEBUG (length ([] @ ?l2)), StreamHandler hl]"
    by (rule logging_log_file(2) [OF h1 d(1) f1])
  have f3: "map_of (cwd ?w3) log_file = Some (File (([] @ ?l2) @ ?l3))"
    by (rule logging_log_file(1) [OF h2 d(1) f2])
  have h3: "handlers ?w3 = [FileHandler DEBUG (length (([] @ ?l2) @ ?l3)), StreamHandler hl]"
    by (rule logging_log_file(2) [OF h2 d(1) f2])
  have h4: "handlers ?w4 = [FileHandler DEBUG (length (([] @ ?l2) @ ?l3)), StreamHandler hl]"
    using h3 by (simp add: print_handlers)
  have f4: "map_of (cwd ?w4) log_file = Some (File (([] @ ?l2) @ ?l3))"
    using f3 by (simp add: print_cwd)
  have "map_of (cwd (logging_log ERROR usage_error ?w4)) log_file =
      Some (File ((([] @ ?l2) @ ?l3) @ log_line ERROR usage_error))"
    by (rule logging_log_file(1) [OF h4 d(2) f4])
  then show ?thesis using m by auto
qed

subsection \<open>Usage conflicts\<close>

text \<open>
  Claim C2, amended. When the parser returns and \<^verbatim>\<open>--upgrade\<close> or \<^verbatim>\<open>--help\<close> comes
  with an argument that the parser does not know, the process ends with status 1, and
  no entry of the working directory but \<^verbatim>\<open>autocrew.log\<close> has changed: logging is
  initialised before the check (line 209), so the log of the previous run is gone. When
  the initialisation of logging returns, the exit is the \<^verbatim>\<open>sys.exit(1)\<close> of line 230
  and the last record of the log is the usage error.
\<close>

theorem main_usage_conflict:
  assumes "parsing call = Returns"
    "upgrade (args call) \<or> help_flag (args call)" "unknown_args call \<noteq> []"
  shows "exit_status (fst (main L call w)) = Some 1
     \<and> (\<forall>n. n \<noteq> log_file \<longrightarrow> map_of (cwd (snd (main L call w))) n = map_of (cwd w) n)
     \<and> (fst (initialize_logging L (verbose (args call)) None w) = None \<longrightarrow>
          fst (main L call w) = Exit 1
          \<and> (\<exists>pre. map_of (cwd (snd (main L call w))) log_file =
                 Some (File (pre @ log_line ERROR usage_error))))"
proof (intro conjI allI impI)
  show "exit_status (fst (main L call w)) = Some 1"
  proof (cases "initialize_logging L (verbose (args call)) None w")
    case (Pair r w1)
    show ?thesis
    proof (cases r)
      case None
      then show ?thesis using main_usage_world [of call L w w1] Pair assms by simp
    next
      case (Some e)
      then show ?thesis using Pair assms(1) by (simp add: main_def)
    qed
  qed
next
  fix n assume n: "n \<noteq> log_file"
  show "map_of (cwd (snd (main L call w))) n = map_of (cwd w) n"
  proof (cases "initialize_logging L (verbose (args call)) None w")
    case (Pair r w1)
    have w1: "map_of (cwd w1) n = map_of (cwd w) n"
      using initialize_logging_other [OF n, of L "verbose (args call)" None w] Pair by simp
    show ?thesis
    proof (cases r)
      case None
      then show ?thesis
        using main_usage_world [of call L w w1] Pair assms w1 n
        by (simp add: logging_log_other print_cwd)
    next
      case (Some e)
      then show ?thesis using Pair w1 assms(1) by (simp add: main_def)
    qed
  qed
next
  assume i: "fst (initialize_logging L (verbose (args call)) None w) = None"
  then obtain w1 where w1: "initialize_logging L (verbose (args call)) None w = (None, w1)"
    by (cases "initialize_logging L (verbose (args call)) None w") auto
  show "fst (main L call w) = Exit 1" using main_usage_world [OF assms(1) w1 assms(2,3)] by simp
  show "\<exists>pre. map_of (cwd (snd (main L call w))) log_file =
                 Some (File (pre @ log_line ERROR usage_error))"
    by (rule main_usage_log [OF assms(1) w1 assms(2,3)])
qed

theorem main_usage_conflict_witness:
  "fst (main plain_parser
         \<lparr>argv = [''--upgrade'', ''--bogus''], parsing = Returns,
          args = no_args\<lparr>upgrade := True\<rparr>,
          unknown_args = [''--bogus''], release_reply = TagName ''2.2.0'',
          clone_reply = CloneFailed\<rparr> installed) = Exit 1
   \<and> map_of (cwd (snd (main plain_parser
         \<lparr>argv = [''--upgrade'', ''--bogus''], parsing = Returns,
          args = no_args\<lparr>upgrade := True\<rparr>,
          unknown_args = [''--bogus''], release_reply = TagName ''2.2.0'',
          clone_reply = CloneFailed\<rparr> installed))) ''config.ini'' = Some (File old_config)"
proof -
  let ?call = "\<lparr>argv = [''--upgrade'', ''--bogus''], parsing = Returns,
          args = no_args\<lparr>upgrade := True\<rparr>,
          unknown_args = [''--bogus''], release_reply = TagName ''2.2.0'',
          clone_reply = CloneFailed\<rparr>"
  have i: "fst (initialize_logging plain_parser False None installed) = None"
    by code_simp
  have c: "map_of (cwd installed) ''config.ini'' = Some (File old_config)"
    by (simp add: installed_def)
  have n: "''config.ini'' \<noteq> log_file" by (simp add: log_file_def)
  have a: "parsing ?call = Returns" "upgrade (args ?call) \<or> help_flag (args ?call)"
    "unknown_args ?call \<noteq> []"
    by simp_all
  show ?thesis
    using main_usage_conflict [OF a, of plain_parser installed] i c n
    by (simp add: no_args_def)
qed

text \<open>
  Claim C2 as stated fails three times. \<^verbatim>\<open>--help\<close> with a goal, an argument the parser
  knows, prints the help and exits with status 0: line 227 looks at the unknown
  arguments only. With \<^verbatim>\<open>--upgrade --bogus\<close>, where the conflict is found, the log file
  no longer has the content it had before the invocation. And with
  \<^verbatim>\<open>--upgrade --bogus -m 0\<close> the parser itself ends the process, with status 2:
  \<^verbatim>\<open>positive_int\<close> raises \<^verbatim>\<open>ArgumentTypeError\<close> for the value 0.
\<close>

theorem main_usage_conflict_counterexample:
  "fst (main plain_parser
         \<lparr>argv = [''--help'', ''write a poem''], parsing = Returns,
          args = no_args\<lparr>help_flag := True, overall_goal := Some ''write a poem''\<rparr>,
          unknown_args = [], release_reply = TagName ''2.1.4'',
          clone_reply = CloneFailed\<rparr> installed) = Exit 0
   \<and> map_of (cwd installed) log_file = Some (File ''log of the previous run'')
   \<and> fst (main plain_parser
         \<lparr>argv = [''--upgrade'', ''--bogus''], parsing = Returns,
          args = no_args\<lparr>upgrade := True\<rparr>,
          unknown_args = [''--bogus''], release_reply = TagName ''2.1.4'',
          clone_reply = CloneFailed\<rparr> installed) = Exit 1
   \<and> map_of (cwd (snd (main plain_parser
         \<lparr>argv = [''--upgrade'', ''--bogus''], parsing = Returns,
          args = no_args\<lparr>upgrade := True\<rparr>,
          unknown_args = [''--bogus''], release_reply = TagName ''2.1.4'',
          clone_reply = CloneFailed\<rparr> installed))) log_file
       \<noteq> Some (File ''log of the previous run'')
   \<and> fst (positive_int plain_parser ''0'' [])
       = Inl (ArgumentTypeError ''0 is an invalid positive int value'')
   \<and> main plain_parser
         \<lparr>argv = [''--upgrade'', ''--bogus'', ''-m'', ''0''], parsing = ExitsUsage,
          args = no_args\<lparr>upgrade := True\<rparr>,
          unknown_args = [''--bogus''], release_reply = TagName ''2.1.4'',
          clone_reply = CloneFailed\<rparr> installed = (Exit 2, installed)"
proof -
  have i: "fst (initialize_logging plain_parser False None installed) = None"
    by code_simp
  then obtain w1 where w1: "initialize_logging plain_parser False None installed = (None, w1)"
    by (cases "initialize_logging plain_parser False None installed") auto
  have a: "fst (main plain_parser
         \<lparr>argv = [''--help'', ''write a poem''], parsing = Returns,
          args = no_args\<lparr>help_flag := True, overall_goal := Some ''write a poem''\<rparr>,
          unknown_args = [], release_reply = TagName ''2.1.4'',
          clone_reply = CloneFailed\<rparr> installed) = Exit 0"
    using w1 by (simp add: main_def Let_def no_args_def)
  have b: "map_of (cwd installed) log_file = Some (File ''log of the previous run'')"
    by (simp add: installed_def log_file_def)
  let ?call = "\<lparr>argv = [''--upgrade'', ''--bogus''], parsing = Returns,
          args = no_args\<lparr>upgrade := True\<rparr>,
          unknown_args = [''--bogus''], release_reply = TagName ''2.1.4'',
          clone_reply = CloneFailed\<rparr>"
  have c: "fst (main plain_parser ?call installed) = Exit 1"
    using w1 by (simp add: main_def Let_def no_args_def)
  have "\<exists>pre. map_of (cwd (snd (main plain_parser ?call installed))) log_file =
          Some (File (pre @ log_line ERROR usage_error))"
    by (rule main_usage_log) (use w1 in \<open>simp_all add: no_args_def\<close>)
  then obtain pre where p: "map_of (cwd (snd (main plain_parser ?call installed))) log_file =
          Some (File (pre @ log_line ERROR usage_error))" ..
  have "pre @ log_line ERROR usage_error \<noteq> ''log of the previous run''"
  proof
    assume "pre @ log_line ERROR usage_error = ''log of the previous run''"
    then have "last (pre @ log_line ERROR usage_error) = last ''log of the previous run''" by simp
    then show False by (simp add: log_line_def)
  qed
  then have e: "map_of (cwd (snd (main plain_parser ?call installed))) log_file
       \<noteq> Some (File ''log of the previous run'')" using p by simp
  have f: "fst (positive_int plain_parser ''0'' [])
       = Inl (ArgumentTypeError ''0 is an invalid positive int value'')" by code_simp
  have g: "main plain_parser
         \<lparr>argv = [''--upgrade'', ''--bogus'', ''-m'', ''0''], parsing = ExitsUsage,
          args = no_args\<lparr>upgrade := True\<rparr>,
          unknown_args = [''--bogus''], release_reply = TagName ''2.1.4'',
          clone_reply = CloneFailed\<rparr> installed = (Exit 2, installed)"
    by (simp add: main_def)
  show ?thesis using a b c e f g by simp
qed

subsection \<open>The merge of the configurations\<close>

lemma map_of_Some_key: "map_of al k = Some v \<Longrightarrow> k \<in> fst ` set al"
  by (force dest: map_of_SomeD)

lemma config_set_named:
  assumes "config_set L c s k v = Inr c'" "s \<noteq> []" "s \<noteq> DEFAULT"
  shows "set_ok L v" "has_section c s" "defaults c' = defaults c"
    "map fst (sections c') = map fst (sections c)"
    "own_option c' s k = Some v"
    "\<And>s' k'. s' \<noteq> s \<or> k' \<noteq> k \<Longrightarrow> own_option c' s' k' = own_option c s' k'"
  using assms
  by (auto simp: config_set_def set_ok_def has_section_def own_option_def update_conv' update_keys
      map_of_Some_key split: option.splits if_splits)

lemma has_section_keys: "has_section c s \<longleftrightarrow> s \<in> set (map fst (sections c))"
  by (simp add: has_section_def map_of_eq_None_iff)

lemma set_all_named:
  assumes "set_all L s kvs c = Inr c'" "s \<noteq> []" "s \<noteq> DEFAULT" "distinct (map fst kvs)"
  shows "defaults c' = defaults c \<and> map fst (sections c') = map fst (sections c)
    \<and> (kvs \<noteq> [] \<longrightarrow> has_section c s)
    \<and> (\<forall>kv \<in> set kvs. set_ok L (snd kv) \<and> own_option c' s (fst kv) = Some (snd kv))
    \<and> (\<forall>s' k'. s' \<noteq> s \<or> k' \<notin> fst ` set kvs \<longrightarrow> own_option c' s' k' = own_option c s' k')"
  using assms
proof (induction kvs arbitrary: c)
  case Nil
  then show ?case by simp
next
  case (Cons kv kvs)
  then obtain c1 where c1: "config_set L c s (fst kv) (snd kv) = Inr c1"
    and r: "set_all L s kvs c1 = Inr c'"
    by (auto split: sum.splits)
  note s1 = config_set_named [OF c1 Cons.prems(2,3)]
  have d: "distinct (map fst kvs)" "fst kv \<notin> fst ` set kvs" using Cons.prems(4) by auto
  note ih = Cons.IH [OF r Cons.prems(2,3) d(1)]
  have a: "own_option c' s (fst kv) = Some (snd kv)"
    using ih d(2) s1(5) by simp
  have b: "\<forall>s' k'. s' \<noteq> s \<or> k' \<notin> fst ` set (kv # kvs) \<longrightarrow> own_option c' s' k' = own_option c s' k'"
  proof (intro allI impI)
    fix s' k' assume h: "s' \<noteq> s \<or> k' \<notin> fst ` set (kv # kvs)"
    then have "own_option c' s' k' = own_option c1 s' k'" using ih by auto
    also have "\<dots> = own_option c s' k'" using h s1(6) [of s' k'] by auto
    finally show "own_option c' s' k' = own_option c s' k'" .
  qed
  show ?case using ih s1(1,2,3,4) a b by auto
qed

lemma get_all_keys: "get_all L d xs = Inr kvs \<Longrightarrow> map fst kvs = map fst xs"
  by (induction xs arbitrary: kvs) (auto split: sum.splits)


lemma fold_update_distinct:
  "distinct (map fst d) \<Longrightarrow>
   distinct (map fst (fold (\<lambda>kv d. AList.update (fst kv) (snd kv) d) opts d))"
  by (induction opts arbitrary: d) (simp_all add: distinct_update)


lemma config_items_distinct:
  assumes "config_items L b s = Inr kvs" "distinct (map fst (defaults b))"
  shows "distinct (map fst kvs)"
proof -
  obtain d where d: "section_dict b s = Inr d" and g: "get_all L d d = Inr kvs"
    using assms(1) by (auto simp: config_items_def split: sum.splits)
  have "distinct (map fst d)"
    using d assms(2)
    by (auto simp: section_dict_def effective_def fold_update_distinct split: option.splits if_splits)
  then show ?thesis using get_all_keys [OF g] by simp
qed

lemma add_section_named:
  assumes "add_section c s = Inr c1"
  shows "defaults c1 = defaults c" "has_section c1 s"
    "\<And>s'. has_section c s' \<Longrightarrow> has_section c1 s'"
    "\<And>s' k. own_option c1 s' k = own_option c s' k"
  using assms
  by (auto simp: add_section_def has_section_def own_option_def map_add_def
      split: if_splits option.splits)

lemma merge_sections_result:
  assumes "merge_sections L b ss c = Inr r" "\<forall>s \<in> set ss. s \<noteq> [] \<and> s \<noteq> DEFAULT"
    "distinct (map fst (defaults b))"
  shows "defaults r = defaults c \<and> (\<forall>s. has_section c s \<longrightarrow> has_section r s)
    \<and> (\<forall>s k. own_option c s k \<noteq> None \<longrightarrow> own_option r s k \<noteq> None)
    \<and> (\<forall>s \<in> set ss. settled L b r s)
    \<and> (\<forall>s k. s \<notin> set ss \<longrightarrow> own_option r s k = own_option c s k)"
  using assms
proof (induction ss arbitrary: c)
  case Nil
  then show ?case by simp
next
  case (Cons s ss)
  from Cons.prems(1) obtain c1 kvs c2 where
    c1: "(if \<not> has_section c s then add_section c s else Inr c) = Inr c1"
    and kvs: "config_items L b s = Inr kvs"
    and c2: "set_all L s kvs c1 = Inr c2"
    and r: "merge_sections L b ss c2 = Inr r"
    by (auto split: sum.splits)
  have s: "s \<noteq> []" "s \<noteq> DEFAULT" using Cons.prems(2) by auto
  have ss: "\<forall>s \<in> set ss. s \<noteq> [] \<and> s \<noteq> DEFAULT" using Cons.prems(2) by auto
  have a1: "defaults c1 = defaults c" "has_section c1 s"
    "\<And>s'. has_section c s' \<Longrightarrow> has_section c1 s'"
    "\<And>s' k. own_option c1 s' k = own_option c s' k"
    using c1 add_section_named [of c s c1] by (auto split: if_splits)
  note a2 = set_all_named [OF c2 s config_items_distinct [OF kvs Cons.prems(3)]]
  have h2: "\<And>s'. has_section c1 s' \<Longrightarrow> has_section c2 s'"
    using a2 by (simp add: has_section_keys)
  have o2: "\<And>s' k. own_option c1 s' k \<noteq> None \<Longrightarrow> own_option c2 s' k \<noteq> None"
  proof -
    fix s' k assume n: "own_option c1 s' k \<noteq> None"
    show "own_option c2 s' k \<noteq> None"
    proof (cases "s' = s \<and> k \<in> fst ` set kvs")
      case True
      then obtain v where "(k, v) \<in> set kvs" by auto
      then have "own_option c2 s k = Some v" using a2 by force
      then show ?thesis using True by simp
    next
      case False
      then have "own_option c2 s' k = own_option c1 s' k" using a2 by blast
      then show ?thesis using n by simp
    qed
  qed
  note ih = Cons.IH [OF r ss Cons.prems(3)]
  have head: "settled L b r s"
  proof (cases "s \<in> set ss")
    case True
    then show ?thesis using ih by blast
  next
    case False
    then have "\<And>k. own_option r s k = own_option c2 s k" using ih by blast
    moreover have "has_section r s" using ih h2 a1(2) by blast
    ultimately show ?thesis using kvs a2 by (simp add: settled_def list_all_iff)
  qed
  have other: "\<forall>s' k. s' \<notin> set (s # ss) \<longrightarrow> own_option r s' k = own_option c s' k"
  proof (intro allI impI)
    fix s' k assume n: "s' \<notin> set (s # ss)"
    then have "own_option r s' k = own_option c2 s' k" using ih by simp
    also have "\<dots> = own_option c1 s' k" using a2 n by simp
    also have "\<dots> = own_option c s' k" by (rule a1(4))
    finally show "own_option r s' k = own_option c s' k" .
  qed
  have d: "defaults r = defaults c" using ih a2 a1(1) by simp
  have hs: "\<forall>s'. has_section c s' \<longrightarrow> has_section r s'" using ih h2 a1(3) by blast
  have os: "\<forall>s' k. own_option c s' k \<noteq> None \<longrightarrow> own_option r s' k \<noteq> None"
    using ih o2 a1(4) by metis
  show ?case using d hs os head other ih by simp
qed

lemma set_all_settled:
  assumes "has_section r s" "s \<noteq> []" "s \<noteq> DEFAULT"
    "list_all (\<lambda>kv. set_ok L (snd kv) \<and> own_option r s (fst kv) = Some (snd kv)) kvs"
  shows "set_all L s kvs r = Inr r"
  using assms(4)
proof (induction kvs)
  case Nil
  then show ?case by simp
next
  case (Cons kv kvs)
  then have ok: "set_ok L (snd kv)" and o: "own_option r s (fst kv) = Some (snd kv)" by auto
  from o obtain opts where opts: "map_of (sections r) s = Some opts"
    and k: "map_of opts (fst kv) = Some (snd kv)"
    by (auto simp: own_option_def split: option.splits)
  have "AList.update s (AList.update (fst kv) (snd kv) opts) (sections r) = sections r"
    using opts k by (simp add: update_triv)
  then have "config_set L r s (fst kv) (snd kv) = Inr r"
    using ok opts assms(2,3) by (simp add: config_set_def set_ok_def)
  then show ?case using Cons by simp
qed

lemma merge_sections_settled:
  assumes "\<forall>s \<in> set ss. s \<noteq> [] \<and> s \<noteq> DEFAULT \<and> settled L b r s"
  shows "merge_sections L b ss r = Inr r"
  using assms
proof (induction ss)
  case Nil
  then show ?case by simp
next
  case (Cons s ss)
  then have s: "s \<noteq> []" "s \<noteq> DEFAULT" "settled L b r s" by auto
  then obtain kvs where kvs: "config_items L b s = Inr kvs"
    and l: "list_all (\<lambda>kv. set_ok L (snd kv) \<and> own_option r s (fst kv) = Some (snd kv)) kvs"
    and h: "has_section r s"
    by (auto simp: settled_def)
  have "set_all L s kvs r = Inr r" by (rule set_all_settled [OF h s(1,2) l])
  then show ?case using kvs h Cons by simp
qed

text \<open>
  Claim C6. Merging the backup into an already merged document changes nothing: when the
  first merge returns a document, the second returns the same document, and when the
  first raises, so does the whole. This holds for every reader and every interpolation.
\<close>

theorem merge_config_idempotent:
  assumes "well_formed config_backup"
  shows "(case merge_config L config config_backup of
            Inl e \<Rightarrow> Inl e
          | Inr merged \<Rightarrow> merge_config L merged config_backup)
         = merge_config L config config_backup"
proof (cases "merge_config L config config_backup")
  case (Inl e)
  then show ?thesis by simp
next
  case (Inr merged)
  have n: "\<forall>s \<in> set (config_sections config_backup). s \<noteq> [] \<and> s \<noteq> DEFAULT"
    and d: "distinct (map fst (defaults config_backup))"
    using assms by (simp_all add: well_formed_def list_all_iff)
  have "\<forall>s \<in> set (config_sections config_backup). settled L config_backup merged s"
    using merge_sections_result [OF Inr [unfolded merge_config_def] n d] by blast
  then have "merge_sections L config_backup (config_sections config_backup) merged = Inr merged"
    using n by (intro merge_sections_settled) blast
  then show ?thesis using Inr by (simp add: merge_config_def)
qed

theorem merge_config_idempotent_witness:
  "well_formed previous_config
   \<and> merge_config plain_parser fetched_config previous_config = Inr merged_config
   \<and> merge_config plain_parser merged_config previous_config = Inr merged_config"
proof -
  have m: "merge_config plain_parser fetched_config previous_config = Inr merged_config"
    by code_simp
  have w: "well_formed previous_config" by code_simp
  show ?thesis
    using merge_config_idempotent [OF w, of plain_parser fetched_config] m w by simp
qed







subsection \<open>The upgrade: backup and fetch\<close>

text \<open>
  Claim C7, at an installation whose \<^verbatim>\<open>config.ini\<close> is missing while the log file is
  there. The log file is copied, guarded by \<^verbatim>\<open>os.path.exists\<close> (line 153); the copy of
  \<^verbatim>\<open>config.ini\<close> (line 158) has no such guard and raises \<^verbatim>\<open>FileNotFoundError\<close>, which
  ends the upgrade. The other way round, a missing log file with \<^verbatim>\<open>config.ini\<close> in
  place, is passed over without an error.
\<close>

theorem upgrade_backup_missing_config:
  "exists_path (cwd first_run) [log_file] \<and> \<not> exists_path (cwd first_run) [config_file]
   \<and> fst (upgrade_backup ''2.2.0'' first_run) = Some (FileNotFoundError ''config.ini'')
   \<and> fst (upgrade_autocrew plain_parser (Cloned fetched_tree) ''2.2.0'' first_run)
       = Some (FileNotFoundError ''config.ini'')
   \<and> \<not> exists_path (cwd no_log) [log_file] \<and> exists_path (cwd no_log) [config_file]
   \<and> fst (upgrade_backup ''2.2.0'' no_log) = None"
  by code_simp

lemma lookup_single: "lookup t [n] = map_of t n"
  by (simp split: option.splits node.splits)

lemma exists_single: "exists_path t [n] \<longleftrightarrow> map_of t n \<noteq> None"
  by (simp only: exists_path_def lookup_single)

lemma write_file_other:
  "write_file t (n0 # p) c = Inr t' \<Longrightarrow> n \<noteq> n0 \<Longrightarrow> map_of t' n = map_of t n"
  by (cases p) (auto simp: update_conv' split: option.splits node.splits sum.splits)

lemma write_file_file:
  "write_file t p c = Inr t' \<Longrightarrow> p \<noteq> [n] \<Longrightarrow>
   map_of t' n = Some (File x) \<longleftrightarrow> map_of t n = Some (File x)"
proof (cases p)
  case Nil
  assume "write_file t p c = Inr t'"
  then show ?thesis using Nil by simp
next
  case (Cons m q)
  assume a: "write_file t p c = Inr t'" "p \<noteq> [n]"
  show ?thesis
  proof (cases "m = n")
    case False
    then show ?thesis using write_file_other [of t m q c t' n] a Cons by simp
  next
    case True
    then obtain m' q' where q: "q = m' # q'" using a(2) Cons by (cases q) auto
    show ?thesis using a(1) Cons q True
      by (auto simp: update_conv' split: option.splits node.splits sum.splits)
  qed
qed

lemma copyfile_other:
  "copyfile t src (n0 # p) = Inr t' \<Longrightarrow> n \<noteq> n0 \<Longrightarrow> map_of t' n = map_of t n"
  by (auto simp: copyfile_def write_file_other split: option.splits node.splits)

lemma makedirs_other: "makedirs t n0 = Inr t' \<Longrightarrow> n \<noteq> n0 \<Longrightarrow> map_of t' n = map_of t n"
  by (auto simp: makedirs_def map_add_def split: if_splits option.splits)

lemma rmtree_other: "rmtree t n0 = Inr t' \<Longrightarrow> n \<noteq> n0 \<Longrightarrow> map_of t' n = map_of t n"
  by (auto simp: rmtree_def split: option.splits node.splits)

lemma rmtree_gone: "rmtree t n0 = Inr t' \<Longrightarrow> map_of t' n0 = None"
  by (auto simp: rmtree_def delete_conv' split: option.splits node.splits)

text \<open>The path of the log backup.\<close>

lemma split_at_not_Nil: "split_at d s \<noteq> []"
  by (induction s) (auto split: list.splits)

lemma split_at_none: "d \<notin> set s \<Longrightarrow> split_at d s = [s]"
  by (induction s) auto

lemma split_at_append: "d \<notin> set a \<Longrightarrow> split_at d (a @ d # b) = a # split_at d b"
  by (induction a) auto

lemma split_at_last:
  "d \<notin> set u \<Longrightarrow> split_at d (s @ u) = butlast (split_at d s) @ [last (split_at d s) @ u]"
proof (induction s)
  case Nil
  then show ?case by (simp add: split_at_none)
next
  case (Cons c s)
  show ?case
  proof (cases "c = d")
    case True
    then show ?thesis using Cons split_at_not_Nil [of d s] by simp
  next
    case False
    obtain p ps where p: "split_at d s = p # ps"
      using split_at_not_Nil [of d s] by (cases "split_at d s") auto
    show ?thesis using Cons False p by (cases ps) auto
  qed
qed

lemma backup_path_components:
  "\<exists>cs y. path_components (logfile_backup_path v) = backup_dir # cs @ [y @ '').log'']"
proof -
  let ?pre = "''autocrew-upgrade-logfile_(v-'' @ AUTOCREW_VERSION @ ''--to--v-'' @ v"
  have n: "logfile_backup_name v = ?pre @ '').log''" by (simp add: logfile_backup_name_def)
  have s: "CHR ''/'' \<notin> set '').log''" by simp
  have b: "CHR ''/'' \<notin> set backup_dir" by (simp add: backup_dir_def)
  let ?xs = "split_at CHR ''/'' ?pre"
  have "split_at CHR ''/'' (logfile_backup_path v)
      = backup_dir # butlast ?xs @ [last ?xs @ '').log'']"
    unfolding logfile_backup_path_def n
    using split_at_append [OF b, of "?pre @ '').log''"] split_at_last [OF s, of ?pre]
    by simp
  then have "path_components (logfile_backup_path v)
      = backup_dir # filter (\<lambda>c. c \<noteq> [] \<and> c \<noteq> ''.'') (butlast ?xs) @ [last ?xs @ '').log'']"
    by (simp add: path_components_def backup_dir_def)
  then show ?thesis by blast
qed

lemma backup_path_plain:
  assumes "CHR ''/'' \<notin> set v"
  shows "path_components (logfile_backup_path v) = [backup_dir, logfile_backup_name v]"
proof -
  have n: "CHR ''/'' \<notin> set (logfile_backup_name v)"
    using assms by (simp add: logfile_backup_name_def AUTOCREW_VERSION_def)
  have b: "CHR ''/'' \<notin> set backup_dir" by (simp add: backup_dir_def)
  have "split_at CHR ''/'' (logfile_backup_path v) = [backup_dir, logfile_backup_name v]"
    unfolding logfile_backup_path_def
    using split_at_append [OF b, of "logfile_backup_name v"] split_at_none [OF n] by simp
  then show ?thesis
    by (simp add: path_components_def backup_dir_def logfile_backup_name_def)
qed

lemma resolve_last:
  "resolve t acc comps = Inr p \<Longrightarrow> comps \<noteq> [] \<Longrightarrow> last comps \<noteq> ''..'' \<Longrightarrow>
   p \<noteq> [] \<and> last p = last comps"
proof (induction t acc comps rule: resolve.induct)
  case (1 t acc)
  then show ?case by simp
next
  case (2 t acc c cs)
  then show ?case by (auto split: if_splits option.splits node.splits)
qed

lemma open_write_config:
  assumes "open_write t (logfile_backup_path v) c = Inr t'"
  shows "map_of t' config_file = Some (File x) \<longleftrightarrow> map_of t config_file = Some (File x)"
proof -
  from backup_path_components [of v] obtain cs y where
    pc: "path_components (logfile_backup_path v) = backup_dir # cs @ [y @ '').log'']" by blast
  from assms obtain p where
    r: "resolve t [] (backup_dir # cs @ [y @ '').log'']) = Inr p"
    and w: "write_file t p c = Inr t'"
    by (auto simp: open_write_def pc split: if_splits sum.splits)
  have "last (backup_dir # cs @ [y @ '').log'']) = y @ '').log''" by simp
  moreover have "y @ '').log'' \<noteq> ''..''"
  proof
    assume "y @ '').log'' = ''..''"
    then have "last (y @ '').log'') = last ''..''" by simp
    then show False by simp
  qed
  ultimately have p: "p \<noteq> [] \<and> last p = y @ '').log''"
    using resolve_last [OF r] by simp
  have "p \<noteq> [config_file]"
  proof
    assume "p = [config_file]"
    then have "last (y @ '').log'') = last config_file" using p by simp
    then show False by (simp add: config_file_def)
  qed
  then show ?thesis by (rule write_file_file [OF w])
qed

lemma open_write_backup:
  assumes "CHR ''/'' \<notin> set v" "open_write t (logfile_backup_path v) c = Inr t'"
  shows "write_file t [backup_dir, logfile_backup_name v] c = Inr t'"
proof -
  have n: "logfile_backup_name v \<noteq> ''..''"
    by (simp add: logfile_backup_name_def)
  have b: "backup_dir \<noteq> ''..''" "\<not> 255 < length backup_dir" by (simp_all add: backup_dir_def)
  from assms(2) obtain p where
    r: "resolve t [] [backup_dir, logfile_backup_name v] = Inr p"
    and w: "write_file t p c = Inr t'"
    by (auto simp: open_write_def backup_path_plain [OF assms(1)] split: if_splits sum.splits)
  from r n b have "p = [backup_dir, logfile_backup_name v]"
    by (auto split: if_splits option.splits node.splits)
  then show ?thesis using w by simp
qed

lemma copyfile_to_other:
  assumes "CHR ''/'' \<notin> set v" "copyfile_to t src (logfile_backup_path v) = Inr t'"
    "n \<noteq> backup_dir"
  shows "map_of t' n = map_of t n"
proof -
  from assms(2) obtain c where "open_write t (logfile_backup_path v) c = Inr t'"
    by (auto simp: copyfile_to_def split: option.splits node.splits)
  then have "write_file t [backup_dir, logfile_backup_name v] c = Inr t'"
    by (rule open_write_backup [OF assms(1)])
  then show ?thesis using assms(3) by (rule write_file_other)
qed

lemma copyfile_to_config:
  assumes "copyfile_to t src (logfile_backup_path v) = Inr t'"
  shows "map_of t' config_file = Some (File x) \<longleftrightarrow> map_of t config_file = Some (File x)"
proof -
  from assms obtain c where "open_write t (logfile_backup_path v) c = Inr t'"
    by (auto simp: copyfile_to_def split: option.splits node.splits)
  then show ?thesis by (rule open_write_config)
qed

text \<open>What a step leaves as it was.\<close>

lemma keepsD: "keeps N f \<Longrightarrow> n \<notin> N \<Longrightarrow> map_of (cwd (snd (f w))) n = map_of (cwd w) n"
  by (simp add: keeps_def)

lemma keeps_seq: "keeps N f \<Longrightarrow> keeps N g \<Longrightarrow> keeps N (seq f g)"
  unfolding keeps_def seq_def
  by (auto split: prod.splits option.splits) (metis snd_conv)+

lemma keeps_info: "log_file \<in> N \<Longrightarrow> keeps N (info msg)"
  by (auto simp: keeps_def info_def intro!: logging_log_other)

lemma keeps_fs_step:
  "(\<And>t t' n. f t = Inr t' \<Longrightarrow> n \<notin> N \<Longrightarrow> map_of t' n = map_of t n) \<Longrightarrow> keeps N (fs_step f)"
  unfolding keeps_def fs_step_def by (auto split: sum.splits)

lemma keeps_if: "keeps N f \<Longrightarrow> keeps N (\<lambda>w. if P w then f w else (None, w))"
  unfolding keeps_def by auto

lemma keeps_upgrade_backup:
  "CHR ''/'' \<notin> set v \<Longrightarrow> keeps {backup_dir, log_file} (upgrade_backup v)"
  unfolding upgrade_backup_def
  by (intro keeps_seq keeps_if keeps_info keeps_fs_step)
     (auto dest: makedirs_other copyfile_other copyfile_to_other)

lemma keeps_git_clone: "keeps {update_dir, log_file} (git_clone cl)"
  unfolding keeps_def git_clone_def by (auto simp: update_conv' split: clone_result.splits)

lemma keeps_upgrade_fetch: "keeps {update_dir, log_file} (upgrade_fetch cl)"
  unfolding upgrade_fetch_def
  by (intro keeps_seq keeps_if keeps_info keeps_fs_step keeps_git_clone)
     (auto dest: rmtree_other)

lemma holdsD:
  "holds n f \<Longrightarrow> map_of (cwd w) n = Some (File x) \<Longrightarrow> map_of (cwd (snd (f w))) n = Some (File x)"
  by (simp add: holds_def)

lemma holds_seq:
  assumes "holds n f" "holds n g"
  shows "holds n (seq f g)"
  unfolding holds_def
proof (intro allI impI)
  fix w :: world and x assume x: "map_of (cwd w) n = Some (File x)"
  show "map_of (cwd (snd (seq f g w))) n = Some (File x)"
  proof (cases "f w")
    case (Pair r w1)
    have w1: "map_of (cwd w1) n = Some (File x)" using holdsD [OF assms(1) x] Pair by simp
    show ?thesis
    proof (cases r)
      case (Some e)
      then show ?thesis using Pair w1 by (simp add: seq_def)
    next
      case None
      then show ?thesis using Pair holdsD [OF assms(2) w1] by (simp add: seq_def)
    qed
  qed
qed

lemma holds_keeps: "keeps N f \<Longrightarrow> n \<notin> N \<Longrightarrow> holds n f"
  by (simp add: holds_def keepsD)

lemma holds_if: "holds n f \<Longrightarrow> holds n (\<lambda>w. if P w then f w else (None, w))"
  unfolding holds_def by auto

lemma holds_fs_step:
  "(\<And>t t' x. f t = Inr t' \<Longrightarrow> map_of t n = Some (File x) \<Longrightarrow> map_of t' n = Some (File x))
   \<Longrightarrow> holds n (fs_step f)"
  unfolding holds_def fs_step_def by (auto split: sum.splits)

lemma holds_upgrade_backup: "holds config_file (upgrade_backup v)"
proof -
  have n: "config_file \<noteq> backup_dir" "config_file \<noteq> log_file"
    by (simp_all add: config_file_def backup_dir_def log_file_def)
  have i: "\<And>msg. holds config_file (info msg)"
    by (rule holds_keeps [OF keeps_info [of "{log_file}"]]) (use n in simp_all)
  show ?thesis
    unfolding upgrade_backup_def
    by (intro holds_seq holds_if holds_fs_step i)
       (use n in \<open>auto simp: copyfile_to_config dest: makedirs_other copyfile_other\<close>)
qed

lemma seq_None: "seq f g w = (None, w') \<longleftrightarrow> (\<exists>w1. f w = (None, w1) \<and> g w1 = (None, w'))"
  by (cases "f w") (auto simp: seq_def split: option.splits)

lemma seq_Some: "f w = (Some e, w1) \<Longrightarrow> seq f g w = (Some e, w1)"
  by (simp add: seq_def)

lemma seq_next: "f w = (None, w1) \<Longrightarrow> seq f g w = g w1"
  by (simp add: seq_def)

lemma upgrade_fetch_no_dir:
  assumes "upgrade_fetch cl w = (None, w')" "cl = GitMissing \<or> cl = CloneFailed"
  shows "cl = CloneFailed \<and> map_of (cwd w') update_dir = None"
proof -
  from assms(1) obtain w1 w2 where
    s1: "(if exists_path (cwd w) [update_dir] then fs_step (\<lambda>t. rmtree t update_dir) w
          else (None, w)) = (None, w1)"
    and s2: "info ''Cloning the latest version from GitHub...'' w1 = (None, w2)"
    and s3: "git_clone cl w2 = (None, w')"
    by (auto simp: upgrade_fetch_def seq_None)
  have cl: "cl = CloneFailed" and w': "w' = w2"
    using s3 assms(2) by (auto simp: git_clone_def)
  have n: "update_dir \<noteq> log_file" by (simp add: update_dir_def log_file_def)
  have "map_of (cwd w1) update_dir = None"
    using s1 by (auto simp: exists_single fs_step_def rmtree_gone split: if_splits sum.splits)
  then have "map_of (cwd w2) update_dir = None"
    using s2 n by (auto simp: info_def logging_log_other)
  then show ?thesis using cl w' by simp
qed

lemma upgrade_replace_no_dir:
  "map_of (cwd w) update_dir = None \<Longrightarrow>
   upgrade_replace w = (Some (FileNotFoundError update_dir), w)"
  by (simp add: upgrade_replace_def listdir_def lookup_single)

lemma fetch_failed:
  assumes "cl = GitMissing \<or> cl = CloneFailed"
  shows "\<exists>e. seq (upgrade_fetch cl) (seq upgrade_replace X) w = (Some e, snd (upgrade_fetch cl w))"
proof (cases "upgrade_fetch cl w")
  case (Pair r w')
  show ?thesis
  proof (cases r)
    case None
    then have f: "upgrade_fetch cl w = (None, w')" using Pair by simp
    from upgrade_fetch_no_dir [OF f assms] have "map_of (cwd w') update_dir = None" by simp
    then have "upgrade_replace w' = (Some (FileNotFoundError update_dir), w')"
      by (rule upgrade_replace_no_dir)
    then have "seq upgrade_replace X w' = (Some (FileNotFoundError update_dir), w')"
      by (rule seq_Some)
    then show ?thesis using f by (simp add: seq_next)
  next
    case (Some e)
    then show ?thesis using Pair by (simp add: seq_Some)
  qed
qed

lemma upgrade_fetch_fails_state:
  assumes "cl = GitMissing \<or> cl = CloneFailed"
  shows "\<exists>e w1. upgrade_autocrew L cl v w = (Some e, w1)
     \<and> (w1 = snd (upgrade_backup v w)
        \<or> w1 = snd (upgrade_fetch cl (snd (upgrade_backup v w))))"
proof (cases "upgrade_backup v w")
  case (Pair r w1)
  let ?rest = "seq (upgrade_config L) (upgrade_cleanup v)"
  show ?thesis
  proof (cases r)
    case (Some e)
    then have "upgrade_autocrew L cl v w = (Some e, w1)"
      using Pair by (simp add: upgrade_autocrew_def seq_Some)
    then show ?thesis using Pair by simp
  next
    case None
    from fetch_failed [OF assms, of ?rest w1] obtain e where
      e: "seq (upgrade_fetch cl) (seq upgrade_replace ?rest) w1
            = (Some e, snd (upgrade_fetch cl w1))" ..
    have "upgrade_autocrew L cl v w = (Some e, snd (upgrade_fetch cl w1))"
      using Pair None e by (simp add: upgrade_autocrew_def seq_next)
    then show ?thesis using Pair by simp
  qed
qed

text \<open>
  Claim C3, amended. When git is missing, or the clone fails and leaves no update
  directory, the upgrade ends with an exception (the clone itself raises, or the listing
  of the update directory, which is not there). A \<^verbatim>\<open>config.ini\<close> that is a regular file
  has the very content it had before the call. When the version text has no slash, every
  entry of the working directory other than the backup directory, the update directory
  and the log file is unchanged: the backups are written, an update directory of an
  earlier run is removed, and the log goes on.
\<close>

theorem upgrade_fetch_fails:
  assumes "cl = GitMissing \<or> cl = CloneFailed"
  shows "fst (upgrade_autocrew L cl latest_version w) \<noteq> None
    \<and> (\<forall>c. lookup (cwd w) [config_file] = Some (File c) \<longrightarrow>
          lookup (cwd (snd (upgrade_autocrew L cl latest_version w))) [config_file]
            = Some (File c))
    \<and> (CHR ''/'' \<notin> set latest_version \<longrightarrow>
         (\<forall>n. n \<noteq> backup_dir \<and> n \<noteq> update_dir \<and> n \<noteq> log_file \<longrightarrow>
            map_of (cwd (snd (upgrade_autocrew L cl latest_version w))) n = map_of (cwd w) n))"
proof -
  let ?b = "snd (upgrade_backup latest_version w)"
  let ?f = "snd (upgrade_fetch cl ?b)"
  from upgrade_fetch_fails_state [OF assms, of L latest_version w] obtain e w1 where
    u: "upgrade_autocrew L cl latest_version w = (Some e, w1)"
    and w1: "w1 = ?b \<or> w1 = ?f" by blast
  have ne: "config_file \<noteq> update_dir" "config_file \<noteq> log_file"
    by (simp_all add: config_file_def update_dir_def log_file_def)
  have c: "\<forall>c. lookup (cwd w) [config_file] = Some (File c) \<longrightarrow>
          lookup (cwd w1) [config_file] = Some (File c)"
  proof (intro allI impI)
    fix c assume "lookup (cwd w) [config_file] = Some (File c)"
    then have a: "map_of (cwd w) config_file = Some (File c)" by (simp only: lookup_single)
    have b: "map_of (cwd ?b) config_file = Some (File c)"
      by (rule holdsD [OF holds_upgrade_backup a])
    have "map_of (cwd ?f) config_file = map_of (cwd ?b) config_file"
      by (rule keepsD [OF keeps_upgrade_fetch]) (use ne in simp)
    then have "map_of (cwd w1) config_file = Some (File c)" using w1 b by auto
    then show "lookup (cwd w1) [config_file] = Some (File c)" by (simp only: lookup_single)
  qed
  have k: "CHR ''/'' \<notin> set latest_version \<longrightarrow>
         (\<forall>n. n \<noteq> backup_dir \<and> n \<noteq> update_dir \<and> n \<noteq> log_file \<longrightarrow>
            map_of (cwd w1) n = map_of (cwd w) n)"
  proof (intro allI impI)
    fix n assume s: "CHR ''/'' \<notin> set latest_version"
      and n: "n \<noteq> backup_dir \<and> n \<noteq> update_dir \<and> n \<noteq> log_file"
    have b: "map_of (cwd ?b) n = map_of (cwd w) n"
      by (rule keepsD [OF keeps_upgrade_backup [OF s]]) (use n in simp)
    have "map_of (cwd ?f) n = map_of (cwd ?b) n"
      by (rule keepsD [OF keeps_upgrade_fetch]) (use n in simp)
    then show "map_of (cwd w1) n = map_of (cwd w) n" using w1 b by auto
  qed
  show ?thesis using u c k by simp
qed

theorem upgrade_fetch_fails_witness:
  "fst (upgrade_autocrew plain_parser CloneFailed ''2.2.0'' (logging_on installed))
     = Some (FileNotFoundError ''autocrew_update'')
   \<and> lookup (cwd (logging_on installed)) [config_file] = Some (File old_config)
   \<and> lookup (cwd (snd (upgrade_autocrew plain_parser CloneFailed ''2.2.0'' (logging_on installed))))
        [config_file] = Some (File old_config)
   \<and> map_of (cwd (snd (upgrade_autocrew plain_parser CloneFailed ''2.2.0'' (logging_on installed))))
        ''autocrew.py'' = Some (File ''old program'')"
proof -
  have a: "fst (upgrade_autocrew plain_parser CloneFailed ''2.2.0'' (logging_on installed))
     = Some (FileNotFoundError ''autocrew_update'')" by code_simp
  have b: "lookup (cwd (logging_on installed)) [config_file] = Some (File old_config)"
    by code_simp
  have c: "map_of (cwd (logging_on installed)) ''autocrew.py'' = Some (File ''old program'')"
    by code_simp
  have n: "''autocrew.py'' \<noteq> backup_dir \<and> ''autocrew.py'' \<noteq> update_dir \<and> ''autocrew.py'' \<noteq> log_file"
    by (simp add: backup_dir_def update_dir_def log_file_def)
  have s: "CHR ''/'' \<notin> set ''2.2.0''" by simp
  have cl: "CloneFailed = GitMissing \<or> CloneFailed = CloneFailed" by simp
  note t = upgrade_fetch_fails [OF cl, of plain_parser "''2.2.0''" "logging_on installed"]
  show ?thesis using t a b c n s by simp
qed

text \<open>
  Claim C3 as stated fails three times. The result of \<^verbatim>\<open>git clone\<close> is never looked at
  (line 166): a clone that fails after it has written part of the tree is followed by
  the whole upgrade, which replaces the program and rewrites \<^verbatim>\<open>config.ini\<close>, and ends
  without an error. When the clone leaves nothing, the installation is still not as it
  was: the backup directory has been made and filled before the clone (lines 146 to
  159), the log has grown, and the update directory of an earlier run is gone. And the
  name of the log backup is built from the version text: with slashes in it, the backup
  of the log is written where that path leads, here into the working directory.
\<close>

theorem upgrade_fetch_fails_counterexample:
  "fst (upgrade_autocrew plain_parser (CloneBroken partial_tree) ''2.2.0'' (logging_on installed))
     = None
   \<and> map_of (cwd (logging_on installed)) ''autocrew.py'' = Some (File ''old program'')
   \<and> map_of (cwd (snd (upgrade_autocrew plain_parser (CloneBroken partial_tree) ''2.2.0''
                        (logging_on installed)))) ''autocrew.py'' = Some (File ''new program'')
   \<and> lookup (cwd (logging_on installed)) [config_file] = Some (File old_config)
   \<and> lookup (cwd (snd (upgrade_autocrew plain_parser (CloneBroken partial_tree) ''2.2.0''
                        (logging_on installed)))) [config_file]
       = Some (File (old_config @ [CHR 0x0A]))
   \<and> \<not> exists_path (cwd (logging_on installed)) [backup_dir]
   \<and> fst (upgrade_autocrew plain_parser CloneFailed ''2.2.0'' (logging_on installed))
       = Some (FileNotFoundError ''autocrew_update'')
   \<and> lookup (cwd (snd (upgrade_autocrew plain_parser CloneFailed ''2.2.0'' (logging_on installed))))
        [backup_dir, ''config_backup.ini''] = Some (File old_config)
   \<and> map_of (cwd (logging_on installed)) log_file = Some (File ''log of the previous run'')
   \<and> map_of (cwd (snd (upgrade_autocrew plain_parser CloneFailed ''2.2.0'' (logging_on installed))))
        log_file \<noteq> Some (File ''log of the previous run'')
   \<and> exists_path (cwd leftover) [update_dir]
   \<and> \<not> exists_path (cwd (snd (upgrade_autocrew plain_parser CloneFailed ''2.2.0'' leftover)))
         [update_dir]
   \<and> \<not> exists_path (cwd with_backups) [''notes).log'']
   \<and> fst (upgrade_autocrew plain_parser CloneFailed ''2.2.0/../../notes'' with_backups)
       = Some (FileNotFoundError ''autocrew_update'')
   \<and> lookup (cwd (snd (upgrade_autocrew plain_parser CloneFailed ''2.2.0/../../notes''
                        with_backups))) [''notes).log''] = Some (File ''log of this run'')"
  by code_simp

subsection \<open>The upgrade: replacing the files and the configuration\<close>

lemma lookup_in_dir: "map_of t n = Some (Dir d) \<Longrightarrow> lookup t (n # p) = lookup d p"
  by simp













end
